theory Spec2Isabelle
  imports Complex_Main
begin

section \<open>Grid data model\<close>

text \<open>
  The level layout agent and the assembly agent work on one plain data model
  (\<^verbatim>\<open>GridRoom\<close>, \<^verbatim>\<open>GridCorridor\<close>, \<^verbatim>\<open>GridPOI\<close>, \<^verbatim>\<open>GridLevelData\<close>).
  A JavaScript number is modelled as a \<^typ>\<open>real\<close>: the raw layout may carry
  fractional values, and the integer grid is the subset \<open>\<int>\<close>.  A field the
  code tests for absence (\<^verbatim>\<open>!level.grid\<close>, \<^verbatim>\<open>room.tags || ...\<close>,
  \<^verbatim>\<open>corridor.segments || ...\<close>, \<^verbatim>\<open>corridor.startX ?? 0\<close>) is an \<open>option\<close>.
  \<^verbatim>\<open>level.corridors\<close> is iterated without such a test, so the model takes
  the list as present, as the interface declares it.  \<^verbatim>\<open>NaN\<close> and the
  infinities are not numbers of the model.  The arithmetic of the model is
  exact, that of the code is in double precision: the two agree as long as
  every value formed is an integer of magnitude at most \<open>2^53\<close> or a half-integer
  of magnitude at most \<open>2^52\<close>, and beyond that the code rounds where the model
  does not (\<open>2^53 + 1\<close> is \<open>2^53\<close> in the code).  Field names that several
  interfaces share carry a short prefix.
\<close>

type_synonym vec3 = "real \<times> real \<times> real"

record RoomMaterial =
  floorColor :: "string option"
  wallColor :: "string option"
  floorTexture :: "string option"
  wallTexture :: "string option"

record GridRoom =
  rid :: string
  rname :: string
  gridX :: real
  gridY :: real
  width :: real
  height :: real
  tags :: "string list option"
  material :: "RoomMaterial option"

record CorridorSegment =
  startX :: real
  startY :: real
  endX :: real
  endY :: real

record GridCorridor =
  cid :: string
  fromRoom :: string
  toRoom :: string
  segments :: "CorridorSegment list option"
  widthCells :: "real option"
  legacyStartX :: "real option"
  legacyStartY :: "real option"
  legacyEndX :: "real option"
  legacyEndY :: "real option"

datatype POIType = spawn | goal | treasure | checkpoint

record GridPOI =
  pid :: string
  ptype :: POIType
  roomId :: string
  offsetX :: real
  offsetY :: real

record GridConfig =
  cellSize :: real
  totalWidth :: real
  totalHeight :: real

record GridLevelData =
  lname :: string
  ltype :: string
  theme :: string
  grid :: "GridConfig option"
  rooms :: "GridRoom list option"
  corridors :: "GridCorridor list"
  pois :: "GridPOI list option"
  criticalPath :: "string list option"

record LevelLayout =
  level :: "GridLevelData option"

definition GRID_CELL_SIZE :: real where
  "GRID_CELL_SIZE = 4"

definition WALL_HEIGHT :: real where
  "WALL_HEIGHT = 4"

section \<open>Corridor router (level layout agent)\<close>

text \<open>The object literal \<^verbatim>\<open>{ minX, maxX, minY, maxY, centerX, centerY }\<close> that
  \<^verbatim>\<open>buildCorridorBetweenRooms\<close> computes for each of its two rooms.  Its sums
  are exact here and rounded to a double in the code; \<open>inExactRange\<close> below
  bounds the rectangles for which the two are the same numbers.\<close>

record RoomBounds =
  minX :: real
  maxX :: real
  minY :: real
  maxY :: real
  centerX :: real
  centerY :: real

definition roomBounds :: "GridRoom \<Rightarrow> RoomBounds" where
  "roomBounds r =
     \<lparr> minX = gridX r, maxX = gridX r + width r,
       minY = gridY r, maxY = gridY r + height r,
       centerX = gridX r + width r / 2,
       centerY = gridY r + height r / 2 \<rparr>"

record Overlap =
  hasOverlap :: bool
  ovStart :: real
  ovEnd :: real

definition getOverlap :: "real \<Rightarrow> real \<Rightarrow> real \<Rightarrow> real \<Rightarrow> Overlap" where
  "getOverlap min1 max1 min2 max2 =
     (let overlapStart = max min1 min2;
          overlapEnd = min max1 max2
      in \<lparr> hasOverlap = overlapStart < overlapEnd,
           ovStart = overlapStart, ovEnd = overlapEnd \<rparr>)"

text \<open>\<^verbatim>\<open>Math.floor\<close>, with the result read as a number again.\<close>

definition Math_floor :: "real \<Rightarrow> real" where
  "Math_floor x = of_int \<lfloor>x\<rfloor>"

definition buildVerticalCorridor ::
  "RoomBounds \<Rightarrow> RoomBounds \<Rightarrow> Overlap \<Rightarrow> CorridorSegment list" where
  "buildVerticalCorridor from to overlapX =
     (let x = Math_floor ((ovStart overlapX + ovEnd overlapX) / 2);
          (sY, eY) = (if maxY from \<le> minY to then (maxY from, minY to)
                      else (minY from, maxY to))
      in [\<lparr> startX = x, startY = sY, endX = x, endY = eY \<rparr>])"

definition buildHorizontalCorridor ::
  "RoomBounds \<Rightarrow> RoomBounds \<Rightarrow> Overlap \<Rightarrow> CorridorSegment list" where
  "buildHorizontalCorridor from to overlapY =
     (let y = Math_floor ((ovStart overlapY + ovEnd overlapY) / 2);
          (sX, eX) = (if maxX from \<le> minX to then (maxX from, minX to)
                      else (minX from, maxX to))
      in [\<lparr> startX = sX, startY = y, endX = eX, endY = y \<rparr>])"

definition buildLShapedCorridor ::
  "RoomBounds \<Rightarrow> RoomBounds \<Rightarrow> CorridorSegment list" where
  "buildLShapedCorridor from to =
     (let goingRight = centerX to > centerX from;
          goingDown = centerY to > centerY from;
          sX = (if goingRight then maxX from else minX from);
          sY = Math_floor (centerY from);
          eX = Math_floor (centerX to);
          eY = (if goingDown then minY to else maxY to);
          cornerX = eX;
          cornerY = sY
      in [\<lparr> startX = sX, startY = sY, endX = cornerX, endY = cornerY \<rparr>,
          \<lparr> startX = cornerX, startY = cornerY, endX = eX, endY = eY \<rparr>])"

text \<open>The segment list chosen by \<^verbatim>\<open>buildCorridorBetweenRooms\<close>: the router
  proper, before the corridor object is wrapped around it.\<close>

definition routeSegments :: "GridRoom \<Rightarrow> GridRoom \<Rightarrow> CorridorSegment list" where
  "routeSegments fromR toR =
     (let from = roomBounds fromR;
          to = roomBounds toR;
          overlapX = getOverlap (minX from) (maxX from) (minX to) (maxX to);
          overlapY = getOverlap (minY from) (maxY from) (minY to) (maxY to)
      in if hasOverlap overlapX then buildVerticalCorridor from to overlapX
         else if hasOverlap overlapY then buildHorizontalCorridor from to overlapY
         else buildLShapedCorridor from to)"

text \<open>Every branch of the router returns one or two segments, so
  \<^verbatim>\<open>segments[0]\<close> and \<^verbatim>\<open>segments[segments.length - 1]\<close> always exist;
  they are \<^const>\<open>hd\<close> and \<^const>\<open>last\<close> of a non-empty list
  (lemma \<open>routeSegments_nonempty\<close> below).\<close>

definition buildCorridorBetweenRooms ::
  "string \<Rightarrow> GridRoom \<Rightarrow> GridRoom \<Rightarrow> real \<Rightarrow> GridCorridor" where
  "buildCorridorBetweenRooms corridorId fromR toR wCells =
     (let segs = routeSegments fromR toR
      in \<lparr> cid = corridorId, fromRoom = rid fromR, toRoom = rid toR,
           segments = Some segs, widthCells = Some wCells,
           legacyStartX = Some (startX (hd segs)),
           legacyStartY = Some (startY (hd segs)),
           legacyEndX = Some (endX (last segs)),
           legacyEndY = Some (endY (last segs)) \<rparr>)"

text \<open>An integer rectangle: integer corner and extents, the extents not negative.\<close>

definition integerRect :: "GridRoom \<Rightarrow> bool" where
  "integerRect r \<longleftrightarrow>
     gridX r \<in> \<int> \<and> gridY r \<in> \<int> \<and> width r \<in> \<int> \<and> height r \<in> \<int> \<and>
     0 \<le> width r \<and> 0 \<le> height r"

text \<open>The corners of a rectangle lie within \<open>\<plusminus> 2^52\<close>.  For integer rectangles in
  this range every number the router forms is held exactly by a double: the
  four bounds are integers of magnitude at most \<open>2^52\<close>, the sum of two of them
  is an integer of magnitude at most \<open>2^53\<close>, and its half is an integer or a
  half-integer of magnitude at most \<open>2^52\<close>.  There the sums of
  \<^const>\<open>roomBounds\<close>, the overlap test and the midpoint of the model are those
  of the code.\<close>

definition inExactRange :: "GridRoom \<Rightarrow> bool" where
  "inExactRange r \<longleftrightarrow>
     \<bar>gridX r\<bar> \<le> 2 ^ 52 \<and> \<bar>gridX r + width r\<bar> \<le> 2 ^ 52 \<and>
     \<bar>gridY r\<bar> \<le> 2 ^ 52 \<and> \<bar>gridY r + height r\<bar> \<le> 2 ^ 52"

text \<open>A grid point lies on the boundary of a rectangle when it is on one of
  its four edges.\<close>

definition onBoundary :: "RoomBounds \<Rightarrow> real \<Rightarrow> real \<Rightarrow> bool" where
  "onBoundary b x y \<longleftrightarrow>
     ((x = minX b \<or> x = maxX b) \<and> minY b \<le> y \<and> y \<le> maxY b) \<or>
     ((y = minY b \<or> y = maxY b) \<and> minX b \<le> x \<and> x \<le> maxX b)"

text \<open>The Y interval of a rectangle, and the Y span of a segment (from the
  lower to the higher of its two end points).\<close>

definition yInterval :: "RoomBounds \<Rightarrow> real set" where
  "yInterval b = {minY b .. maxY b}"

definition spanY :: "CorridorSegment \<Rightarrow> real set" where
  "spanY seg = {min (startY seg) (endY seg) .. max (startY seg) (endY seg)}"

text \<open>The Y intervals of two rectangles do not overlap: one rectangle ends
  where or before the other begins.\<close>

definition yIntervalsApart :: "RoomBounds \<Rightarrow> RoomBounds \<Rightarrow> bool" where
  "yIntervalsApart a b \<longleftrightarrow> maxY a \<le> minY b \<or> maxY b \<le> minY a"

text \<open>A room by id, corner, extents and tags, for the worked examples.\<close>

definition mkRoom :: "string \<Rightarrow> real \<Rightarrow> real \<Rightarrow> real \<Rightarrow> real \<Rightarrow> string list option \<Rightarrow> GridRoom" where
  "mkRoom i x y w h ts =
     \<lparr> rid = i, rname = i, gridX = x, gridY = y, width = w, height = h,
       tags = ts, material = None \<rparr>"

section \<open>Layout repair (level layout agent)\<close>

text \<open>
  \<^verbatim>\<open>validateAndFixLayout\<close> mutates the layout in place; the model returns the
  repaired layout.  Its two \<^verbatim>\<open>throw new Error(...)\<close> are the first two errors;
  \<open>TypeError\<close> is what the runtime raises on a property read of \<^verbatim>\<open>undefined\<close>
  (\<^verbatim>\<open>rooms[0].id\<close> of an empty list, \<^verbatim>\<open>level.pois.find\<close> of a missing list).
  \<open>NonFinite\<close> is no exception of the source: it stands for a result that holds
  \<^verbatim>\<open>NaN\<close> or \<^verbatim>\<open>Infinity\<close>, which the reals of the model lack (the camera of a
  level with no room).
\<close>

datatype error = MissingLevel | InsufficientRooms | TypeError | NonFinite

text \<open>\<^verbatim>\<open>Math.round\<close>: the nearest integer, a tie going towards \<open>+\<infinity>\<close>.\<close>

definition Math_round :: "real \<Rightarrow> real" where
  "Math_round x = of_int \<lfloor>x + 1 / 2\<rfloor>"

text \<open>The body of the loop over \<^verbatim>\<open>level.rooms\<close>;
  \<^verbatim>\<open>room.tags || ['mid']\<close> keeps any array, an empty one too.\<close>

definition fixRoom :: "GridRoom \<Rightarrow> GridRoom" where
  "fixRoom room =
     room \<lparr> gridX := Math_round (gridX room),
            gridY := Math_round (gridY room),
            width := max 2 (Math_round (width room)),
            height := max 2 (Math_round (height room)),
            tags := Some (case tags room of None \<Rightarrow> [''mid''] | Some ts \<Rightarrow> ts) \<rparr>"

text \<open>The loop itself: every room is fixed and stored in \<^verbatim>\<open>roomsMap\<close> under its
  id, a later room replacing an earlier one with the same id.\<close>

fun fixRooms ::
  "(string \<rightharpoonup> GridRoom) \<Rightarrow> GridRoom list \<Rightarrow> GridRoom list \<times> (string \<rightharpoonup> GridRoom)" where
  "fixRooms roomsMap [] = ([], roomsMap)"
| "fixRooms roomsMap (room # rest) =
     (let room' = fixRoom room;
          (rest', roomsMap') = fixRooms (roomsMap(rid room' \<mapsto> room')) rest
      in (room' # rest', roomsMap'))"

text \<open>What the loop leaves in \<^verbatim>\<open>roomsMap\<close>, on its own: the fixed rooms stored
  in order (lemma \<open>fixRooms_eq\<close>).\<close>

definition registerRooms :: "(string \<rightharpoonup> GridRoom) \<Rightarrow> GridRoom list \<Rightarrow> (string \<rightharpoonup> GridRoom)" where
  "registerRooms m rs = foldl (\<lambda>m r. m(rid r \<mapsto> r)) m rs"

text \<open>\<^verbatim>\<open>corridor.widthCells || 1\<close>: a missing or zero width becomes 1.\<close>

definition widthOrOne :: "real option \<Rightarrow> real" where
  "widthOrOne w = (case w of None \<Rightarrow> 1 | Some v \<Rightarrow> if v = 0 then 1 else v)"

text \<open>The loop over \<^verbatim>\<open>level.corridors\<close>: a corridor whose two rooms resolve is
  rebuilt by the router, any other is left out.\<close>

fun rebuildCorridors :: "(string \<rightharpoonup> GridRoom) \<Rightarrow> GridCorridor list \<Rightarrow> GridCorridor list" where
  "rebuildCorridors roomsMap [] = []"
| "rebuildCorridors roomsMap (corridor # rest) =
     (case (roomsMap (fromRoom corridor), roomsMap (toRoom corridor)) of
        (Some fromR, Some toR) \<Rightarrow>
          buildCorridorBetweenRooms (cid corridor) fromR toR (widthOrOne (widthCells corridor))
            # rebuildCorridors roomsMap rest
      | _ \<Rightarrow> rebuildCorridors roomsMap rest)"

text \<open>\<^verbatim>\<open>r.tags?.includes(tag)\<close>\<close>

definition tagsInclude :: "string \<Rightarrow> GridRoom \<Rightarrow> bool" where
  "tagsInclude tag r = (case tags r of None \<Rightarrow> False | Some ts \<Rightarrow> tag \<in> set ts)"

definition generateDefaultPOIs :: "GridRoom list \<Rightarrow> error + GridPOI list" where
  "generateDefaultPOIs rs =
     (if rs = [] then Inl TypeError
      else
        let entryRoom = (case find (tagsInclude ''entry'') rs of
                           Some r \<Rightarrow> r | None \<Rightarrow> hd rs);
            goalRoom = (case find (tagsInclude ''goal'') rs of
                          Some r \<Rightarrow> r | None \<Rightarrow> last rs)
        in Inr [\<lparr> pid = ''poi_spawn'', ptype = spawn, roomId = rid entryRoom,
                   offsetX = 0, offsetY = 0 \<rparr>,
                \<lparr> pid = ''poi_goal'', ptype = goal, roomId = rid goalRoom,
                   offsetX = 0, offsetY = 0 \<rparr>])"

text \<open>\<^verbatim>\<open>pois.some(p => p.type === ty)\<close>\<close>

definition hasType :: "POIType \<Rightarrow> GridPOI list \<Rightarrow> bool" where
  "hasType ty ps = list_ex (\<lambda>p. ptype p = ty) ps"

definition defaultGrid :: GridConfig where
  "defaultGrid = \<lparr> cellSize = GRID_CELL_SIZE, totalWidth = 30, totalHeight = 50 \<rparr>"

text \<open>The two POI checks of \<^verbatim>\<open>validateAndFixLayout\<close>, in the source's order:
  fewer than two POIs, then no spawn or no goal.\<close>

definition fixPOIs :: "GridRoom list \<Rightarrow> GridPOI list option \<Rightarrow> error + GridPOI list" where
  "fixPOIs rs ps0 =
     (case (case ps0 of
              None \<Rightarrow> generateDefaultPOIs rs
            | Some ps \<Rightarrow> if length ps < 2 then generateDefaultPOIs rs else Inr ps) of
        Inl e \<Rightarrow> Inl e
      | Inr ps1 \<Rightarrow>
          if \<not> hasType spawn ps1 \<or> \<not> hasType goal ps1 then generateDefaultPOIs rs
          else Inr ps1)"

definition fixCriticalPath :: "GridRoom list \<Rightarrow> string list option \<Rightarrow> string list" where
  "fixCriticalPath rs cp =
     (case cp of
        None \<Rightarrow> map rid rs
      | Some path \<Rightarrow> if length path < 2 then map rid rs else path)"

definition validateAndFixLayout :: "LevelLayout \<Rightarrow> error + LevelLayout" where
  "validateAndFixLayout layout =
     (case level layout of
        None \<Rightarrow> Inl MissingLevel
      | Some lvl \<Rightarrow>
          (case rooms lvl of
             None \<Rightarrow> Inl InsufficientRooms
           | Some rs \<Rightarrow>
               if length rs < 2 then Inl InsufficientRooms
               else
                 let g = (case grid lvl of None \<Rightarrow> defaultGrid | Some g0 \<Rightarrow> g0);
                     (rs', roomsMap) = fixRooms Map.empty rs;
                     fixedCorridors = rebuildCorridors roomsMap (corridors lvl)
                 in (case fixPOIs rs' (pois lvl) of
                       Inl e \<Rightarrow> Inl e
                     | Inr ps \<Rightarrow>
                         Inr (layout \<lparr> level := Some (lvl
                           \<lparr> grid := Some g,
                             rooms := Some rs',
                             corridors := fixedCorridors,
                             pois := Some ps,
                             criticalPath := Some (fixCriticalPath rs' (criticalPath lvl)) \<rparr>) \<rparr>))))"

text \<open>Round half away from zero, as the specification words the coercion of
  \<^verbatim>\<open>gridX\<close> and \<^verbatim>\<open>gridY\<close>; compared with \<^const>\<open>Math_round\<close> below.\<close>

definition roundHalfAwayFromZero :: "real \<Rightarrow> real" where
  "roundHalfAwayFromZero x = sgn x * of_int \<lfloor>\<bar>x\<bar> + 1 / 2\<rfloor>"

text \<open>\<open>k\<close> is the integer nearest to \<open>v\<close>, a tie going up: the one integer in
  \<open>(v - 1/2, v + 1/2]\<close>.\<close>

definition nearestTieUp :: "real \<Rightarrow> real \<Rightarrow> bool" where
  "nearestTieUp v k \<longleftrightarrow> k \<in> \<int> \<and> v - 1 / 2 < k \<and> k \<le> v + 1 / 2"

definition countType :: "POIType \<Rightarrow> GridPOI list \<Rightarrow> nat" where
  "countType ty ps = length (filter (\<lambda>p. ptype p = ty) ps)"

text \<open>When the repair regenerates the POIs: the list is missing, shorter than
  two, or lacks a spawn or a goal.\<close>

definition regeneratesPOIs :: "GridPOI list option \<Rightarrow> bool" where
  "regeneratesPOIs ps0 =
     (case ps0 of
        None \<Rightarrow> True
      | Some ps \<Rightarrow> length ps < 2 \<or> \<not> hasType spawn ps \<or> \<not> hasType goal ps)"

text \<open>A raw level and a POI, for the worked examples: the level has no grid
  configuration and no critical path.\<close>

definition mkLevel ::
  "GridRoom list \<Rightarrow> GridCorridor list \<Rightarrow> GridPOI list option \<Rightarrow> GridLevelData" where
  "mkLevel rs cs ps =
     \<lparr> lname = ''L'', ltype = ''dungeon'', theme = ''stone'', grid = None,
       rooms = Some rs, corridors = cs, pois = ps, criticalPath = None \<rparr>"

definition mkPOI :: "string \<Rightarrow> POIType \<Rightarrow> string \<Rightarrow> GridPOI" where
  "mkPOI i ty r = \<lparr> pid = i, ptype = ty, roomId = r, offsetX = 0, offsetY = 0 \<rparr>"

section \<open>Geometry assembler (assembly agent)\<close>

definition CELL_SIZE :: real where
  "CELL_SIZE = GRID_CELL_SIZE"

definition WALL_HEIGHT_M :: real where
  "WALL_HEIGHT_M = WALL_HEIGHT"

definition gridToWorldX :: "real \<Rightarrow> real" where
  "gridToWorldX gx = gx * CELL_SIZE"

definition gridToWorldZ :: "real \<Rightarrow> real" where
  "gridToWorldZ gy = gy * CELL_SIZE"

definition cellsToMeters :: "real \<Rightarrow> real" where
  "cellsToMeters cells = cells * CELL_SIZE"

text \<open>The components \<^verbatim>\<open>v[0]\<close>, \<^verbatim>\<open>v[1]\<close>, \<^verbatim>\<open>v[2]\<close> of a point.\<close>

definition vx :: "vec3 \<Rightarrow> real" where "vx v = fst v"
definition vy :: "vec3 \<Rightarrow> real" where "vy v = fst (snd v)"
definition vz :: "vec3 \<Rightarrow> real" where "vz v = snd (snd v)"

subsection \<open>Walls with openings\<close>

datatype Side = north | south | east | west

datatype Axis = AxisX | AxisZ

record Opening =
  oside :: Side
  oposition :: real
  owidth :: real

record GeometryWall =
  wid :: string
  wstart :: vec3
  wend :: vec3
  wheight :: real
  wcolor :: string

text \<open>The decimal text of a wall number, for the template \<^verbatim>\<open>`wall_${id}`\<close>.\<close>

fun natToString :: "nat \<Rightarrow> string" where
  "natToString n =
     (if n < 10 then [''0123456789'' ! n]
      else natToString (n div 10) @ [''0123456789'' ! (n mod 10)])"

definition mkWall :: "nat \<Rightarrow> vec3 \<Rightarrow> vec3 \<Rightarrow> string \<Rightarrow> GeometryWall" where
  "mkWall i s e color =
     \<lparr> wid = ''wall_'' @ natToString i, wstart = s, wend = e,
       wheight = WALL_HEIGHT_M, wcolor = color \<rparr>"

text \<open>The loop over the sorted openings.  Its state is the wall list, the
  cursor \<^verbatim>\<open>currentPos\<close> and the next wall number \<^verbatim>\<open>id\<close>.\<close>

fun carveOpenings ::
  "Axis \<Rightarrow> vec3 \<Rightarrow> vec3 \<Rightarrow> string \<Rightarrow> Opening list
     \<Rightarrow> GeometryWall list \<times> real \<times> nat \<Rightarrow> GeometryWall list \<times> real \<times> nat" where
  "carveOpenings axis start endp color [] st = st"
| "carveOpenings axis start endp color (opening # rest) (walls, currentPos, i) =
     (let openingStart = oposition opening - owidth opening / 2;
          openingEnd = oposition opening + owidth opening / 2;
          (walls', i') =
            (if currentPos < openingStart then
               (let segStart = (case axis of
                                  AxisX \<Rightarrow> (currentPos, vy start, vz start)
                                | AxisZ \<Rightarrow> (vx start, vy start, currentPos));
                    segEnd = (case axis of
                                AxisX \<Rightarrow> (openingStart, vy endp, vz endp)
                              | AxisZ \<Rightarrow> (vx endp, vy endp, openingStart))
                in (walls @ [mkWall i segStart segEnd color], i + 1))
             else (walls, i))
      in carveOpenings axis start endp color rest (walls', max currentPos openingEnd, i'))"

text \<open>\<^verbatim>\<open>[...openings].sort((a, b) => a.position - b.position)\<close> is a stable sort
  by position, as \<^const>\<open>sort_key\<close> is.  The source pushes onto \<^verbatim>\<open>walls\<close>; the
  model returns the extended list.\<close>

definition createWallWithOpenings ::
  "GeometryWall list \<Rightarrow> nat \<Rightarrow> vec3 \<Rightarrow> vec3 \<Rightarrow> Axis \<Rightarrow> Opening list \<Rightarrow> string
     \<Rightarrow> GeometryWall list" where
  "createWallWithOpenings walls startId start endp axis openings color =
     (if openings = [] then walls @ [mkWall startId start endp color]
      else
        let sortedOpenings = sort_key oposition openings;
            wallStart = (case axis of AxisX \<Rightarrow> vx start | AxisZ \<Rightarrow> vz start);
            wallEnd = (case axis of AxisX \<Rightarrow> vx endp | AxisZ \<Rightarrow> vz endp);
            (walls', currentPos, i) =
              carveOpenings axis start endp color sortedOpenings (walls, wallStart, startId)
        in if currentPos < wallEnd then
             (let segStart = (case axis of
                                AxisX \<Rightarrow> (currentPos, vy start, vz start)
                              | AxisZ \<Rightarrow> (vx start, vy start, currentPos));
                  segEnd = (case axis of
                              AxisX \<Rightarrow> (wallEnd, vy endp, vz endp)
                            | AxisZ \<Rightarrow> (vx endp, vy endp, wallEnd))
              in walls' @ [mkWall i segStart segEnd color])
           else walls')"

text \<open>\<^verbatim>\<open>findRoomOpenings\<close>: what one corridor segment pushes for a room (a north
  and a south opening for a vertical segment, a west and an east one for a
  horizontal segment, in the source's order), then the loop over the segments
  of a corridor that touches the room, then the loop over the corridors.
  \<^verbatim>\<open>corridor.segments || [legacy]\<close> keeps any array, an empty one too.\<close>

definition segmentOpenings :: "GridRoom \<Rightarrow> real \<Rightarrow> CorridorSegment \<Rightarrow> Opening list" where
  "segmentOpenings room corridorWidthM seg =
     (let roomMinX = gridX room;
          roomMaxX = gridX room + width room;
          roomMinY = gridY room;
          roomMaxY = gridY room + height room;
          isVertical = (startX seg = endX seg)
      in if isVertical then
           (let segX = startX seg
            in if segX \<ge> roomMinX \<and> segX \<le> roomMaxX then
                 (let positionM = gridToWorldX segX
                  in (if startY seg = roomMinY \<or> endY seg = roomMinY
                      then [\<lparr> oside = north, oposition = positionM, owidth = corridorWidthM \<rparr>]
                      else [])
                     @ (if startY seg = roomMaxY \<or> endY seg = roomMaxY
                        then [\<lparr> oside = south, oposition = positionM, owidth = corridorWidthM \<rparr>]
                        else []))
               else [])
         else
           (let segY = startY seg
            in if segY \<ge> roomMinY \<and> segY \<le> roomMaxY then
                 (let positionM = gridToWorldZ segY
                  in (if startX seg = roomMinX \<or> endX seg = roomMinX
                      then [\<lparr> oside = west, oposition = positionM, owidth = corridorWidthM \<rparr>]
                      else [])
                     @ (if startX seg = roomMaxX \<or> endX seg = roomMaxX
                        then [\<lparr> oside = east, oposition = positionM, owidth = corridorWidthM \<rparr>]
                        else []))
               else []))"

definition orZero :: "real option \<Rightarrow> real" where
  "orZero v = (case v of None \<Rightarrow> 0 | Some x \<Rightarrow> x)"

definition corridorOpenings :: "GridRoom \<Rightarrow> GridCorridor \<Rightarrow> Opening list" where
  "corridorOpenings room corridor =
     (if fromRoom corridor \<noteq> rid room \<and> toRoom corridor \<noteq> rid room then []
      else
        let corridorWidthM = cellsToMeters (widthOrOne (widthCells corridor));
            segs = (case segments corridor of
                      Some ss \<Rightarrow> ss
                    | None \<Rightarrow> [\<lparr> startX = orZero (legacyStartX corridor),
                                   startY = orZero (legacyStartY corridor),
                                   endX = orZero (legacyEndX corridor),
                                   endY = orZero (legacyEndY corridor) \<rparr>])
        in concat (map (segmentOpenings room corridorWidthM) segs))"

definition findRoomOpenings :: "GridRoom \<Rightarrow> GridCorridor list \<Rightarrow> Opening list" where
  "findRoomOpenings room cs = concat (map (corridorOpenings room) cs)"

text \<open>Reading a wall side and its spans along the wall axis.\<close>

definition axisCoord :: "Axis \<Rightarrow> vec3 \<Rightarrow> real" where
  "axisCoord axis v = (case axis of AxisX \<Rightarrow> vx v | AxisZ \<Rightarrow> vz v)"

definition spanLo :: "Axis \<Rightarrow> GeometryWall \<Rightarrow> real" where
  "spanLo axis w = axisCoord axis (wstart w)"

definition spanHi :: "Axis \<Rightarrow> GeometryWall \<Rightarrow> real" where
  "spanHi axis w = axisCoord axis (wend w)"

definition spanInterval :: "Axis \<Rightarrow> GeometryWall \<Rightarrow> real set" where
  "spanInterval axis w = {spanLo axis w .. spanHi axis w}"

definition openingLo :: "Opening \<Rightarrow> real" where
  "openingLo opening = oposition opening - owidth opening / 2"

definition openingHi :: "Opening \<Rightarrow> real" where
  "openingHi opening = oposition opening + owidth opening / 2"

definition openingInterval :: "Opening \<Rightarrow> real set" where
  "openingInterval opening = {openingLo opening .. openingHi opening}"

text \<open>Two openings do not overlap when one ends where or before the other
  begins (they may touch).\<close>

definition openingsApart :: "Opening \<Rightarrow> Opening \<Rightarrow> bool" where
  "openingsApart a b \<longleftrightarrow> openingHi a \<le> openingLo b \<or> openingHi b \<le> openingLo a"

text \<open>Every opening is an interval inside the wall side \<open>[wallStart, wallEnd]\<close>.\<close>

definition openingsInside :: "real \<Rightarrow> real \<Rightarrow> Opening list \<Rightarrow> bool" where
  "openingsInside wallStart wallEnd openings =
     list_all (\<lambda>opening. wallStart \<le> openingLo opening \<and> openingLo opening \<le> openingHi opening
                 \<and> openingHi opening \<le> wallEnd) openings"

definition widthsNonNegative :: "Opening list \<Rightarrow> bool" where
  "widthsNonNegative openings = list_all (\<lambda>opening. 0 \<le> owidth opening) openings"

text \<open>The spans of one side, seen along the wall axis: each has positive
  length, and each ends where or before the next begins.\<close>

definition spansPositive :: "Axis \<Rightarrow> GeometryWall list \<Rightarrow> bool" where
  "spansPositive axis ws = list_all (\<lambda>w. spanLo axis w < spanHi axis w) ws"

definition spansIncreasing :: "Axis \<Rightarrow> GeometryWall list \<Rightarrow> bool" where
  "spansIncreasing axis ws = sorted_wrt (\<lambda>a b. spanHi axis a \<le> spanLo axis b) ws"

definition spanApartFromOpening :: "Axis \<Rightarrow> GeometryWall \<Rightarrow> Opening \<Rightarrow> bool" where
  "spanApartFromOpening axis w opening \<longleftrightarrow>
     spanHi axis w \<le> openingLo opening \<or> openingHi opening \<le> spanLo axis w"

text \<open>What the spans of a side and its openings cover together.\<close>

definition sideCoverage :: "Axis \<Rightarrow> GeometryWall list \<Rightarrow> Opening list \<Rightarrow> real set" where
  "sideCoverage axis spans openings =
     (\<Union>w\<in>set spans. spanInterval axis w) \<union> (\<Union>a\<in>set openings. openingInterval a)"

text \<open>An opening by side, centre and width, for the worked examples.\<close>

definition mkOpening :: "Side \<Rightarrow> real \<Rightarrow> real \<Rightarrow> Opening" where
  "mkOpening s p w = \<lparr> oside = s, oposition = p, owidth = w \<rparr>"

text \<open>The openings of a list are pairwise apart: for every two list positions
  \<open>i < j\<close> (and, \<^const>\<open>openingsApart\<close> being symmetric, for every two positions).\<close>

definition pairwiseApart :: "Opening list \<Rightarrow> bool" where
  "pairwiseApart openings = sorted_wrt openingsApart openings"

text \<open>For the proofs: the span the loop emits before an opening, then what the
  loop adds to the wall list, the cursor it ends with and the next wall number,
  started at cursor \<open>c\<close> and wall number \<open>i\<close> (lemma \<open>carveOpenings_eq\<close>).\<close>

definition spanBetween ::
  "Axis \<Rightarrow> vec3 \<Rightarrow> vec3 \<Rightarrow> string \<Rightarrow> real \<Rightarrow> real \<Rightarrow> nat \<Rightarrow> GeometryWall" where
  "spanBetween axis start endp color lo hi i =
     mkWall i
       (case axis of AxisX \<Rightarrow> (lo, vy start, vz start) | AxisZ \<Rightarrow> (vx start, vy start, lo))
       (case axis of AxisX \<Rightarrow> (hi, vy endp, vz endp) | AxisZ \<Rightarrow> (vx endp, vy endp, hi))
       color"

fun carvedSpans ::
  "Axis \<Rightarrow> vec3 \<Rightarrow> vec3 \<Rightarrow> string \<Rightarrow> Opening list \<Rightarrow> real \<Rightarrow> nat \<Rightarrow> GeometryWall list" where
  "carvedSpans axis start endp color [] c i = []"
| "carvedSpans axis start endp color (opening # rest) c i =
     (if c < openingLo opening
      then spanBetween axis start endp color c (openingLo opening) i
             # carvedSpans axis start endp color rest (max c (openingHi opening)) (i + 1)
      else carvedSpans axis start endp color rest (max c (openingHi opening)) i)"

fun carvedCursor :: "Opening list \<Rightarrow> real \<Rightarrow> real" where
  "carvedCursor [] c = c"
| "carvedCursor (opening # rest) c = carvedCursor rest (max c (openingHi opening))"

fun carvedNext :: "Opening list \<Rightarrow> real \<Rightarrow> nat \<Rightarrow> nat" where
  "carvedNext [] c i = i"
| "carvedNext (opening # rest) c i =
     carvedNext rest (max c (openingHi opening)) (if c < openingLo opening then i + 1 else i)"

text \<open>For the proofs: the openings follow one another from the cursor \<open>c\<close> to
  the end \<open>e\<close> of the wall, each beginning where or after the one before ends.\<close>

fun chained :: "real \<Rightarrow> Opening list \<Rightarrow> real \<Rightarrow> bool" where
  "chained c [] e = (c \<le> e)"
| "chained c (opening # rest) e =
     (c \<le> openingLo opening \<and> openingLo opening \<le> openingHi opening
      \<and> chained (openingHi opening) rest e)"

subsection \<open>POI markers\<close>

record GeometryPOI =
  gid :: string
  gtype :: POIType
  gposition :: vec3
  gcolor :: string
  glabel :: string
  groomId :: string

text \<open>The string behind each value of the union type
  \<^verbatim>\<open>'spawn' | 'goal' | 'treasure' | 'checkpoint'\<close>.\<close>

fun poiTypeName :: "POIType \<Rightarrow> string" where
  "poiTypeName spawn = ''spawn''"
| "poiTypeName goal = ''goal''"
| "poiTypeName treasure = ''treasure''"
| "poiTypeName checkpoint = ''checkpoint''"

text \<open>The table \<^verbatim>\<open>POI_COLORS\<close>, read by type name.\<close>

definition POI_COLORS :: "string \<rightharpoonup> string" where
  "POI_COLORS = [''spawn'' \<mapsto> ''#00ff00'', ''goal'' \<mapsto> ''#ff0000'',
                 ''treasure'' \<mapsto> ''#ffd700'', ''checkpoint'' \<mapsto> ''#00bfff'']"

text \<open>\<^verbatim>\<open>toUpperCase\<close> on one ASCII character, and
  \<^verbatim>\<open>s.charAt(0).toUpperCase() + s.slice(1)\<close>.\<close>

definition toUpperCase :: "char \<Rightarrow> char" where
  "toUpperCase c =
     (case map_of (zip ''abcdefghijklmnopqrstuvwxyz'' ''ABCDEFGHIJKLMNOPQRSTUVWXYZ'') c of
        Some u \<Rightarrow> u
      | None \<Rightarrow> c)"

definition capitalize :: "string \<Rightarrow> string" where
  "capitalize s = (case s of [] \<Rightarrow> [] | c # cs \<Rightarrow> toUpperCase c # cs)"

text \<open>The marker of one POI; \<^verbatim>\<open>0.1\<close> is the height of the marker above the
  floor.\<close>

definition buildGridPOI :: "GridRoom list \<Rightarrow> GridPOI \<Rightarrow> GeometryPOI" where
  "buildGridPOI rs poi =
     (case find (\<lambda>r. rid r = roomId poi) rs of
        None \<Rightarrow>
          \<lparr> gid = pid poi, gtype = ptype poi, gposition = (0, 1 / 10, 0),
            gcolor = (case POI_COLORS (poiTypeName (ptype poi)) of
                        Some col \<Rightarrow> col | None \<Rightarrow> ''#ffffff''),
            glabel = capitalize (poiTypeName (ptype poi)),
            groomId = roomId poi \<rparr>
      | Some room \<Rightarrow>
          (let centerX = gridToWorldX (gridX room + width room / 2);
               centerZ = gridToWorldZ (gridY room + height room / 2)
           in \<lparr> gid = pid poi, gtype = ptype poi, gposition = (centerX, 1 / 10, centerZ),
                gcolor = (case POI_COLORS (poiTypeName (ptype poi)) of
                            Some col \<Rightarrow> col | None \<Rightarrow> ''#ffffff''),
                glabel = capitalize (poiTypeName (ptype poi)),
                groomId = roomId poi \<rparr>))"

definition buildGridPOIs :: "GridPOI list \<Rightarrow> GridRoom list \<Rightarrow> GeometryPOI list" where
  "buildGridPOIs ps rs = map (buildGridPOI rs) ps"

subsection \<open>Object placement\<close>

datatype Role = protagonist | antagonist | npc

record Character =
  chId :: string
  chName :: string
  role :: Role
  chDescription :: string
  chTripoPrompt :: string

record Prop =
  prId :: string
  prName :: string
  prDescription :: string
  prTripoPrompt :: string
  placement_tags :: "string list option"

text \<open>Of \<^verbatim>\<open>GameContext\<close> the placement reads \<^verbatim>\<open>characters\<close> and \<^verbatim>\<open>props\<close>
  only; the level intent and the environment are left out of the record.\<close>

record GameContext =
  game_title :: string
  genre :: string
  mood :: string
  style :: string
  characters :: "Character list"
  props :: "Prop list option"

datatype AssetType = AssetCharacter | AssetProp

datatype AssetStatus = pending | generating | ready | failed

record GeneratedAsset =
  assetId :: string
  assetName :: string
  assetType :: AssetType
  path :: string
  status :: AssetStatus
  prompt :: string

record SceneObject =
  objId :: string
  reference_id :: string
  objName :: string
  model_path :: string
  objPosition :: vec3
  rotation :: vec3
  objScale :: vec3
  poi_id :: "string option"

text \<open>The table \<^verbatim>\<open>ASSET_SCALES\<close>.\<close>

definition ASSET_SCALES_protagonist :: vec3 where "ASSET_SCALES_protagonist = (3, 3, 3)"
definition ASSET_SCALES_antagonist :: vec3 where "ASSET_SCALES_antagonist = (5, 5, 5)"
definition ASSET_SCALES_npc :: vec3 where "ASSET_SCALES_npc = (5 / 2, 5 / 2, 5 / 2)"
definition ASSET_SCALES_prop :: vec3 where "ASSET_SCALES_prop = (2, 2, 2)"

text \<open>\<^verbatim>\<open>prop.placement_tags?.[0] || 'mid'\<close>\<close>

definition targetTagOf :: "Prop \<Rightarrow> string" where
  "targetTagOf p =
     (case placement_tags p of
        Some (t # _) \<Rightarrow> if t = [] then ''mid'' else t
      | _ \<Rightarrow> ''mid'')"

text \<open>\<^verbatim>\<open>new Map(level.rooms.map(r => [r.id, r]))\<close>: the last room of an id wins.\<close>

definition roomsById :: "GridRoom list \<Rightarrow> (string \<rightharpoonup> GridRoom)" where
  "roomsById rs = registerRooms Map.empty rs"

text \<open>What one pass of the loop over the assets decides for a ready asset:
  position, scale, POI id, and the updated prop counter \<^verbatim>\<open>roomPropCount\<close>.
  The position starts at \<^verbatim>\<open>[0, 0, 0]\<close> and the scale at the prop scale, and
  both stay so when no branch assigns them.\<close>

definition anchorOf ::
  "GridRoom list \<Rightarrow> GridPOI option \<Rightarrow> GridPOI option \<Rightarrow> (string \<rightharpoonup> GridRoom) \<Rightarrow> GameContext
     \<Rightarrow> (string \<rightharpoonup> nat) \<Rightarrow> GeneratedAsset
     \<Rightarrow> vec3 \<times> vec3 \<times> string option \<times> (string \<rightharpoonup> nat)" where
  "anchorOf rs spawnPOI goalPOI roomsMap context roomPropCount asset =
     (let unplaced = ((0, 0, 0), ASSET_SCALES_prop, None, roomPropCount);
          character = find (\<lambda>c. chId c = assetId asset) (characters context);
          prop = (case props context of
                    None \<Rightarrow> None
                  | Some ps \<Rightarrow> find (\<lambda>p. prId p = assetId asset) ps)
      in case character of
           Some ch \<Rightarrow>
             (case (if role ch = protagonist then spawnPOI else None) of
                Some sp \<Rightarrow>
                  (case roomsMap (roomId sp) of
                     Some room \<Rightarrow>
                       ((gridToWorldX (gridX room + width room / 2), 0,
                         gridToWorldZ (gridY room + height room / 2)),
                        ASSET_SCALES_protagonist, Some (pid sp), roomPropCount)
                   | None \<Rightarrow> unplaced)
              | None \<Rightarrow>
                  (case (if role ch = antagonist then goalPOI else None) of
                     Some gp \<Rightarrow>
                       (case roomsMap (roomId gp) of
                          Some room \<Rightarrow>
                            ((gridToWorldX (gridX room + width room / 2), 0,
                              gridToWorldZ (gridY room + height room / 2)),
                             ASSET_SCALES_antagonist, Some (pid gp), roomPropCount)
                        | None \<Rightarrow> unplaced)
                   | None \<Rightarrow>
                       (case find (tagsInclude ''mid'') rs of
                          Some midRoom \<Rightarrow>
                            ((gridToWorldX (gridX midRoom + width midRoom / 2) + 3, 0,
                              gridToWorldZ (gridY midRoom + height midRoom / 2)),
                             ASSET_SCALES_npc, None, roomPropCount)
                        | None \<Rightarrow> unplaced)))
         | None \<Rightarrow>
             (case prop of
                Some p \<Rightarrow>
                  (case find (tagsInclude (targetTagOf p)) rs of
                     Some targetRoom \<Rightarrow>
                       (let propIndex = (case roomPropCount (rid targetRoom) of
                                           None \<Rightarrow> 0 | Some n \<Rightarrow> n);
                            angle = real propIndex * pi / 3 - pi / 6;
                            radius = 3
                        in ((gridToWorldX (gridX targetRoom + width targetRoom / 2)
                               + cos angle * radius, 0,
                             gridToWorldZ (gridY targetRoom + height targetRoom / 2)
                               + sin angle * radius),
                            ASSET_SCALES_prop, None,
                            roomPropCount(rid targetRoom \<mapsto> propIndex + 1)))
                   | None \<Rightarrow> unplaced)
              | None \<Rightarrow> unplaced))"

text \<open>The loop over the assets.  An asset that is not ready, or has an empty
  path, is passed over (\<^verbatim>\<open>continue\<close>); every other asset is pushed.\<close>

fun placeAssets ::
  "GridRoom list \<Rightarrow> GridPOI option \<Rightarrow> GridPOI option \<Rightarrow> (string \<rightharpoonup> GridRoom) \<Rightarrow> GameContext
     \<Rightarrow> GeneratedAsset list \<Rightarrow> SceneObject list \<times> (string \<rightharpoonup> nat) \<Rightarrow> SceneObject list" where
  "placeAssets rs spawnPOI goalPOI roomsMap context [] (objects, roomPropCount) = objects"
| "placeAssets rs spawnPOI goalPOI roomsMap context (asset # rest) (objects, roomPropCount) =
     (if status asset \<noteq> ready \<or> path asset = [] then
        placeAssets rs spawnPOI goalPOI roomsMap context rest (objects, roomPropCount)
      else
        (let (position, scale, poiId, roomPropCount') =
               anchorOf rs spawnPOI goalPOI roomsMap context roomPropCount asset
         in placeAssets rs spawnPOI goalPOI roomsMap context rest
              (objects @ [\<lparr> objId = ''obj_'' @ assetId asset, reference_id = assetId asset,
                            objName = assetName asset, model_path = path asset,
                            objPosition = position, rotation = (0, 0, 0),
                            objScale = scale, poi_id = poiId \<rparr>],
               roomPropCount')))"

definition positionGridObjects ::
  "GridLevelData \<Rightarrow> GeneratedAsset list \<Rightarrow> GameContext \<Rightarrow> error + SceneObject list" where
  "positionGridObjects lvl assets context =
     (case (pois lvl, rooms lvl) of
        (Some ps, Some rs) \<Rightarrow>
          (let spawnPOI = find (\<lambda>p. ptype p = spawn) ps;
               goalPOI = find (\<lambda>p. ptype p = goal) ps;
               roomsMap = roomsById rs
           in Inr (placeAssets rs spawnPOI goalPOI roomsMap context assets ([], Map.empty)))
      | _ \<Rightarrow> Inl TypeError)"

text \<open>A ready asset: one the loop does not pass over.\<close>

definition isReady :: "GeneratedAsset \<Rightarrow> bool" where
  "isReady asset \<longleftrightarrow> status asset = ready \<and> path asset \<noteq> []"

text \<open>An object left where the loop initialises it: at the origin, with the
  prop scale and no POI.\<close>

definition unplacedObject :: "GeneratedAsset \<Rightarrow> SceneObject" where
  "unplacedObject asset =
     \<lparr> objId = ''obj_'' @ assetId asset, reference_id = assetId asset,
       objName = assetName asset, model_path = path asset,
       objPosition = (0, 0, 0), rotation = (0, 0, 0),
       objScale = (2, 2, 2), poi_id = None \<rparr>"

text \<open>The target of an asset resolves to no room: it is a prop and no room
  carries its placement tag, or it is a secondary character (an \<open>npc\<close>) and no
  room is tagged \<open>mid\<close>.\<close>

definition targetUnresolved :: "GridRoom list \<Rightarrow> GameContext \<Rightarrow> GeneratedAsset \<Rightarrow> bool" where
  "targetUnresolved rs context asset =
     (case find (\<lambda>c. chId c = assetId asset) (characters context) of
        Some ch \<Rightarrow> role ch = npc \<and> find (tagsInclude ''mid'') rs = None
      | None \<Rightarrow>
          (case (case props context of
                   None \<Rightarrow> None
                 | Some ps \<Rightarrow> find (\<lambda>p. prId p = assetId asset) ps) of
             Some p \<Rightarrow> find (tagsInclude (targetTagOf p)) rs = None
           | None \<Rightarrow> False))"

text \<open>A ready asset, a game context, a prop and a character, for the worked
  examples.\<close>

definition mkAsset :: "string \<Rightarrow> AssetType \<Rightarrow> GeneratedAsset" where
  "mkAsset i ty = \<lparr> assetId = i, assetName = i, assetType = ty,
       path = ''/assets/'' @ i @ ''.glb'', status = ready, prompt = i \<rparr>"

definition mkContext :: "Character list \<Rightarrow> Prop list \<Rightarrow> GameContext" where
  "mkContext chs prs = \<lparr> game_title = ''G'', genre = ''rpg'', mood = ''dark'', style = ''medieval'',
       characters = chs, props = Some prs \<rparr>"

definition mkProp :: "string \<Rightarrow> string list \<Rightarrow> Prop" where
  "mkProp i ts = \<lparr> prId = i, prName = i, prDescription = i, prTripoPrompt = i,
       placement_tags = Some ts \<rparr>"

definition mkCharacter :: "string \<Rightarrow> Role \<Rightarrow> Character" where
  "mkCharacter i r = \<lparr> chId = i, chName = i, role = r, chDescription = i, chTripoPrompt = i \<rparr>"

subsection \<open>Camera framing\<close>

record CameraConfig =
  default_position :: vec3
  default_look_at :: vec3
  default_fov :: real
  orbit_target :: vec3
  min_distance :: real
  max_distance :: real

text \<open>The four running bounds \<^verbatim>\<open>minX\<close>, \<^verbatim>\<open>maxX\<close>, \<^verbatim>\<open>minZ\<close>, \<^verbatim>\<open>maxZ\<close> of the loop
  over the rooms (here \<open>accMinX\<close> and so on).  \<open>None\<close> is the
  initial \<^verbatim>\<open>Infinity\<close> (for a minimum) or \<^verbatim>\<open>-Infinity\<close> (for a maximum).\<close>

definition minInf :: "real option \<Rightarrow> real \<Rightarrow> real option" where
  "minInf acc v = (case acc of None \<Rightarrow> Some v | Some m \<Rightarrow> Some (min m v))"

definition maxInf :: "real option \<Rightarrow> real \<Rightarrow> real option" where
  "maxInf acc v = (case acc of None \<Rightarrow> Some v | Some m \<Rightarrow> Some (max m v))"

fun levelBounds ::
  "GridRoom list \<Rightarrow> real option \<times> real option \<times> real option \<times> real option
     \<Rightarrow> real option \<times> real option \<times> real option \<times> real option" where
  "levelBounds [] acc = acc"
| "levelBounds (room # rest) (accMinX, accMaxX, accMinZ, accMaxZ) =
     (let roomMinX = gridToWorldX (gridX room);
          roomMaxX = gridToWorldX (gridX room + width room);
          roomMinZ = gridToWorldZ (gridY room);
          roomMaxZ = gridToWorldZ (gridY room + height room)
      in levelBounds rest
           (minInf accMinX roomMinX, maxInf accMaxX roomMaxX,
            minInf accMinZ roomMinZ, maxInf accMaxZ roomMaxZ))"

definition cameraHeightFor :: "real \<Rightarrow> real \<Rightarrow> real" where
  "cameraHeightFor levelWidth levelDepth = max 30 (max levelWidth levelDepth * (4 / 5))"

definition cameraDistanceFor :: "real \<Rightarrow> real" where
  "cameraDistanceFor levelDepth = max 40 levelDepth"

definition configureGridCamera :: "GridLevelData \<Rightarrow> error + CameraConfig" where
  "configureGridCamera lvl =
     (case rooms lvl of
        None \<Rightarrow> Inl TypeError
      | Some rs \<Rightarrow>
          (case levelBounds rs (None, None, None, None) of
             (Some accMinX, Some accMaxX, Some accMinZ, Some accMaxZ) \<Rightarrow>
               (let centerX = (accMinX + accMaxX) / 2;
                    centerZ = (accMinZ + accMaxZ) / 2;
                    levelWidth = accMaxX - accMinX;
                    levelDepth = accMaxZ - accMinZ;
                    cameraHeight = cameraHeightFor levelWidth levelDepth;
                    cameraDistance = cameraDistanceFor levelDepth
                in Inr \<lparr> default_position = (centerX, cameraHeight, accMaxZ + cameraDistance * (1 / 2)),
                         default_look_at = (centerX, 0, centerZ),
                         default_fov = 60,
                         orbit_target = (centerX, 0, centerZ),
                         min_distance = 10,
                         max_distance = cameraDistance * 2 \<rparr>)
           | _ \<Rightarrow> Inl NonFinite))"

text \<open>The axis-aligned bounding box over the world rectangles of the rooms.\<close>

definition boxMinX :: "GridRoom list \<Rightarrow> real" where
  "boxMinX rs = Min (set (map (\<lambda>r. gridToWorldX (gridX r)) rs))"

definition boxMaxX :: "GridRoom list \<Rightarrow> real" where
  "boxMaxX rs = Max (set (map (\<lambda>r. gridToWorldX (gridX r + width r)) rs))"

definition boxMinZ :: "GridRoom list \<Rightarrow> real" where
  "boxMinZ rs = Min (set (map (\<lambda>r. gridToWorldZ (gridY r)) rs))"

definition boxMaxZ :: "GridRoom list \<Rightarrow> real" where
  "boxMaxZ rs = Max (set (map (\<lambda>r. gridToWorldZ (gridY r + height r)) rs))"

definition boxWidth :: "GridRoom list \<Rightarrow> real" where
  "boxWidth rs = boxMaxX rs - boxMinX rs"

definition boxDepth :: "GridRoom list \<Rightarrow> real" where
  "boxDepth rs = boxMaxZ rs - boxMinZ rs"

definition boxCenter :: "GridRoom list \<Rightarrow> vec3" where
  "boxCenter rs = ((boxMinX rs + boxMaxX rs) / 2, 0, (boxMinZ rs + boxMaxZ rs) / 2)"

section \<open>Router: helper facts\<close>

lemma routeSegments_nonempty: "routeSegments f t \<noteq> []"
  by (simp add: routeSegments_def buildVerticalCorridor_def buildHorizontalCorridor_def
      buildLShapedCorridor_def Let_def split: prod.splits)

lemma floor_mid_bounds:
  fixes s e :: real
  assumes "s \<in> \<int>" and "s < e"
  shows "s \<le> of_int \<lfloor>(s + e) / 2\<rfloor>" and "of_int \<lfloor>(s + e) / 2\<rfloor> < e"
proof -
  from assms(1) obtain k :: int where k: "s = of_int k" by (auto elim: Ints_cases)
  have "s \<le> (s + e) / 2" using assms(2) by simp
  then have "k \<le> \<lfloor>(s + e) / 2\<rfloor>" unfolding k by (simp add: le_floor_iff)
  then show "s \<le> of_int \<lfloor>(s + e) / 2\<rfloor>" unfolding k by simp
  have "of_int \<lfloor>(s + e) / 2\<rfloor> \<le> (s + e) / 2" by (rule of_int_floor_le)
  also have "\<dots> < e" using assms(2) by simp
  finally show "of_int \<lfloor>(s + e) / 2\<rfloor> < e" .
qed


section \<open>Router: the straight vertical corridor\<close>

text \<open>
  C1, as the specification states it, fails in its last part.  The router does
  not test whether the two rectangles overlap on Y as well.  For
  \<open>from = (0,0,4,5)\<close> and \<open>to = (0,3,4,5)\<close> it is \<open>from.maxY = 5 > 3 = to.minY\<close>,
  so the span is \<open>[from.minY, to.maxY] = [0, 8]\<close>: the segment starts on the far
  edge of \<open>from\<close>, ends on the far edge of \<open>to\<close> and runs through the inside of
  both (the point \<open>(2, 4)\<close> of the segment is strictly inside each), instead of
  touching their facing edges.
\<close>

theorem route_overlapping_rooms_span_counterexample:
  "integerRect (mkRoom ''from'' 0 0 4 5 None) \<and> integerRect (mkRoom ''to'' 0 3 4 5 None) \<and>
   hasOverlap (getOverlap 0 (0 + 4) 0 (0 + 4)) \<and>
   segments (buildCorridorBetweenRooms ''c'' (mkRoom ''from'' 0 0 4 5 None)
       (mkRoom ''to'' 0 3 4 5 None) 1)
     = Some [\<lparr> startX = 2, startY = 0, endX = 2, endY = 8 \<rparr>] \<and>
   4 \<in> spanY \<lparr> startX = 2, startY = 0, endX = 2, endY = 8 \<rparr> \<and>
   minX (roomBounds (mkRoom ''from'' 0 0 4 5 None)) < 2 \<and>
   2 < maxX (roomBounds (mkRoom ''from'' 0 0 4 5 None)) \<and>
   minY (roomBounds (mkRoom ''from'' 0 0 4 5 None)) < 4 \<and>
   4 < maxY (roomBounds (mkRoom ''from'' 0 0 4 5 None)) \<and>
   minX (roomBounds (mkRoom ''to'' 0 3 4 5 None)) < 2 \<and>
   2 < maxX (roomBounds (mkRoom ''to'' 0 3 4 5 None)) \<and>
   minY (roomBounds (mkRoom ''to'' 0 3 4 5 None)) < 4 \<and>
   4 < maxY (roomBounds (mkRoom ''to'' 0 3 4 5 None)) \<and>
   spanY \<lparr> startX = 2, startY = 0, endX = 2, endY = 8 \<rparr>
       \<inter> yInterval (roomBounds (mkRoom ''from'' 0 0 4 5 None)) \<noteq> {0} \<and>
   spanY \<lparr> startX = 2, startY = 0, endX = 2, endY = 8 \<rparr>
       \<inter> yInterval (roomBounds (mkRoom ''to'' 0 3 4 5 None)) \<noteq> {8}"
proof -
  have r: "segments (buildCorridorBetweenRooms ''c'' (mkRoom ''from'' 0 0 4 5 None)
       (mkRoom ''to'' 0 3 4 5 None) 1)
     = Some [\<lparr> startX = 2, startY = 0, endX = 2, endY = 8 \<rparr>]"
    by (simp add: buildCorridorBetweenRooms_def routeSegments_def buildVerticalCorridor_def
        roomBounds_def getOverlap_def Math_floor_def mkRoom_def Let_def)
  have h: "integerRect (mkRoom ''from'' 0 0 4 5 None)" "integerRect (mkRoom ''to'' 0 3 4 5 None)"
      "hasOverlap (getOverlap 0 (0 + 4) 0 (0 + 4))"
    by (simp_all add: integerRect_def mkRoom_def getOverlap_def)
  have s: "4 \<in> spanY \<lparr> startX = 2, startY = 0, endX = 2, endY = 8 \<rparr>"
    by (simp add: spanY_def)
  have b: "minX (roomBounds (mkRoom ''from'' 0 0 4 5 None)) < 2"
      "2 < maxX (roomBounds (mkRoom ''from'' 0 0 4 5 None))"
      "minY (roomBounds (mkRoom ''from'' 0 0 4 5 None)) < 4"
      "4 < maxY (roomBounds (mkRoom ''from'' 0 0 4 5 None))"
      "minX (roomBounds (mkRoom ''to'' 0 3 4 5 None)) < 2"
      "2 < maxX (roomBounds (mkRoom ''to'' 0 3 4 5 None))"
      "minY (roomBounds (mkRoom ''to'' 0 3 4 5 None)) < 4"
      "4 < maxY (roomBounds (mkRoom ''to'' 0 3 4 5 None))"
    by (simp_all add: roomBounds_def mkRoom_def)
  have yf: "4 \<in> yInterval (roomBounds (mkRoom ''from'' 0 0 4 5 None))"
    and yt: "4 \<in> yInterval (roomBounds (mkRoom ''to'' 0 3 4 5 None))"
    using b by (simp_all add: yInterval_def)
  have d: "(4::real) \<notin> {0}" "(4::real) \<notin> {8}"
    by simp_all
  have n: "spanY \<lparr> startX = 2, startY = 0, endX = 2, endY = 8 \<rparr>
       \<inter> yInterval (roomBounds (mkRoom ''from'' 0 0 4 5 None)) \<noteq> {0}"
    "spanY \<lparr> startX = 2, startY = 0, endX = 2, endY = 8 \<rparr>
       \<inter> yInterval (roomBounds (mkRoom ''to'' 0 3 4 5 None)) \<noteq> {8}"
    using s yf yt d by blast+
  from h r s b n show ?thesis
    by blast
qed

text \<open>
  C1, amended.  For integer rectangles \<open>f\<close> (from) and \<open>t\<close> (to) whose corners lie
  within \<open>\<plusminus> 2^52\<close> (where the double arithmetic of the router is exact) and whose
  X intervals overlap, the router returns exactly one segment; it is vertical,
  its X coordinate is \<open>\<lfloor>(overlapStart + overlapEnd) / 2\<rfloor>\<close> and lies in the overlap
  interval (even in its half-open form \<open>[overlapStart, overlapEnd)\<close>); its Y span
  is \<open>[from.maxY, to.minY]\<close> when \<open>from.maxY \<le> to.minY\<close> and \<open>[from.minY, to.maxY]\<close>
  otherwise; it starts on the boundary of \<open>from\<close> and ends on the boundary of
  \<open>to\<close>.  When the Y intervals of the two rectangles do not overlap, the span
  exactly touches the facing edges: it meets the Y interval of \<open>from\<close> in its
  start point only and the Y interval of \<open>to\<close> in its end point only.
\<close>

theorem route_x_overlap_one_vertical_segment:
  assumes "integerRect f" and "integerRect t"
    and "inExactRange f" and "inExactRange t"
    and "hasOverlap (getOverlap (gridX f) (gridX f + width f) (gridX t) (gridX t + width t))"
  shows "\<exists>seg. segments (buildCorridorBetweenRooms c f t w) = Some [seg] \<and>
           startX seg = endX seg \<and>
           startX seg = of_int \<lfloor>(max (gridX f) (gridX t)
                                  + min (gridX f + width f) (gridX t + width t)) / 2\<rfloor> \<and>
           max (gridX f) (gridX t) \<le> startX seg \<and>
           startX seg < min (gridX f + width f) (gridX t + width t) \<and>
           startX seg \<le> min (gridX f + width f) (gridX t + width t) \<and>
           (if gridY f + height f \<le> gridY t
            then startY seg = gridY f + height f \<and> endY seg = gridY t
            else startY seg = gridY f \<and> endY seg = gridY t + height t) \<and>
           onBoundary (roomBounds f) (startX seg) (startY seg) \<and>
           onBoundary (roomBounds t) (endX seg) (endY seg) \<and>
           (yIntervalsApart (roomBounds f) (roomBounds t) \<longrightarrow>
              spanY seg \<inter> yInterval (roomBounds f) = {startY seg} \<and>
              spanY seg \<inter> yInterval (roomBounds t) = {endY seg})"
proof -
  let ?s = "max (gridX f) (gridX t)"
  let ?e = "min (gridX f + width f) (gridX t + width t)"
  let ?x = "of_int \<lfloor>(?s + ?e) / 2\<rfloor> :: real"
  let ?sY = "if gridY f + height f \<le> gridY t then gridY f + height f else gridY f"
  let ?eY = "if gridY f + height f \<le> gridY t then gridY t else gridY t + height t"
  let ?seg = "\<lparr> startX = ?x, startY = ?sY, endX = ?x, endY = ?eY \<rparr>"
  have lt: "?s < ?e"
    using assms(5) by (simp add: getOverlap_def Let_def)
  have "gridX f \<in> \<int>" and "gridX t \<in> \<int>"
    using assms(1,2) by (simp_all add: integerRect_def)
  then have sint: "?s \<in> \<int>"
    by (simp add: max_def)
  note b = floor_mid_bounds [OF sint lt]
  have hf: "0 \<le> height f" and ht: "0 \<le> height t"
    using assms(1,2) by (simp_all add: integerRect_def)
  have route: "routeSegments f t =
      buildVerticalCorridor (roomBounds f) (roomBounds t)
        (getOverlap (gridX f) (gridX f + width f) (gridX t) (gridX t + width t))"
    using assms(5) by (simp add: routeSegments_def roomBounds_def Let_def)
  have seg: "segments (buildCorridorBetweenRooms c f t w) = Some [?seg]"
    by (simp add: buildCorridorBetweenRooms_def route buildVerticalCorridor_def
        getOverlap_def roomBounds_def Math_floor_def Let_def)
  have xf: "gridX f \<le> ?x" "?x \<le> gridX f + width f"
    and xt: "gridX t \<le> ?x" "?x \<le> gridX t + width t"
    using b by simp_all
  have bf: "onBoundary (roomBounds f) (startX ?seg) (startY ?seg)"
    using xf by (simp add: onBoundary_def roomBounds_def)
  have bt: "onBoundary (roomBounds t) (endX ?seg) (endY ?seg)"
    using xt by (simp add: onBoundary_def roomBounds_def)
  have touch: "spanY ?seg \<inter> yInterval (roomBounds f) = {startY ?seg} \<and>
               spanY ?seg \<inter> yInterval (roomBounds t) = {endY ?seg}"
    if apart: "yIntervalsApart (roomBounds f) (roomBounds t)"
  proof (cases "gridY f + height f \<le> gridY t")
    case True
    then show ?thesis
      using hf ht by (auto simp: spanY_def yInterval_def roomBounds_def)
  next
    case False
    then have "gridY t + height t \<le> gridY f"
      using apart by (simp add: yIntervalsApart_def roomBounds_def)
    then show ?thesis
      using False hf ht by (auto simp: spanY_def yInterval_def roomBounds_def)
  qed
  have rest: "startX ?seg = endX ?seg \<and>
           startX ?seg = of_int \<lfloor>(?s + ?e) / 2\<rfloor> \<and>
           ?s \<le> startX ?seg \<and> startX ?seg < ?e \<and> startX ?seg \<le> ?e \<and>
           (if gridY f + height f \<le> gridY t
            then startY ?seg = gridY f + height f \<and> endY ?seg = gridY t
            else startY ?seg = gridY f \<and> endY ?seg = gridY t + height t)"
    using b by simp
  from seg rest bf bt touch show ?thesis
    by blast
qed

theorem route_x_overlap_one_vertical_segment_witness:
  "integerRect (mkRoom ''R1'' 0 0 4 3 None) \<and> integerRect (mkRoom ''R2'' 0 6 4 3 None) \<and>
   inExactRange (mkRoom ''R1'' 0 0 4 3 None) \<and> inExactRange (mkRoom ''R2'' 0 6 4 3 None) \<and>
   hasOverlap (getOverlap 0 (0 + 4) 0 (0 + 4)) \<and>
   yIntervalsApart (roomBounds (mkRoom ''R1'' 0 0 4 3 None))
     (roomBounds (mkRoom ''R2'' 0 6 4 3 None)) \<and>
   segments (buildCorridorBetweenRooms ''c1'' (mkRoom ''R1'' 0 0 4 3 None)
       (mkRoom ''R2'' 0 6 4 3 None) 1)
     = Some [\<lparr> startX = 2, startY = 3, endX = 2, endY = 6 \<rparr>] \<and>
   spanY \<lparr> startX = 2, startY = 3, endX = 2, endY = 6 \<rparr>
       \<inter> yInterval (roomBounds (mkRoom ''R1'' 0 0 4 3 None)) = {3} \<and>
   spanY \<lparr> startX = 2, startY = 3, endX = 2, endY = 6 \<rparr>
       \<inter> yInterval (roomBounds (mkRoom ''R2'' 0 6 4 3 None)) = {6}"
proof -
  let ?f = "mkRoom ''R1'' 0 0 4 3 None" and ?t = "mkRoom ''R2'' 0 6 4 3 None"
  have h1: "integerRect ?f" and h2: "integerRect ?t"
    by (simp_all add: integerRect_def mkRoom_def)
  have h3: "inExactRange ?f" and h4: "inExactRange ?t"
    by (simp_all add: inExactRange_def mkRoom_def)
  have h5: "hasOverlap (getOverlap (gridX ?f) (gridX ?f + width ?f) (gridX ?t) (gridX ?t + width ?t))"
    by (simp add: getOverlap_def mkRoom_def)
  have h6: "yIntervalsApart (roomBounds ?f) (roomBounds ?t)"
    by (simp add: yIntervalsApart_def roomBounds_def mkRoom_def)
  from route_x_overlap_one_vertical_segment [OF h1 h2 h3 h4 h5, of "''c1''" 1] h6
  obtain seg where seg:
    "segments (buildCorridorBetweenRooms ''c1'' ?f ?t 1) = Some [seg]"
    "spanY seg \<inter> yInterval (roomBounds ?f) = {startY seg}"
    "spanY seg \<inter> yInterval (roomBounds ?t) = {endY seg}"
    by blast
  have v: "segments (buildCorridorBetweenRooms ''c1'' ?f ?t 1)
     = Some [\<lparr> startX = 2, startY = 3, endX = 2, endY = 6 \<rparr>]"
    by (simp add: buildCorridorBetweenRooms_def routeSegments_def buildVerticalCorridor_def
        roomBounds_def getOverlap_def Math_floor_def mkRoom_def Let_def)
  from seg(1) v have e: "seg = \<lparr> startX = 2, startY = 3, endX = 2, endY = 6 \<rparr>"
    by simp
  have h5': "hasOverlap (getOverlap 0 (0 + 4) 0 (0 + 4))"
    using h5 by (simp add: mkRoom_def)
  from seg(2,3) have
    "spanY \<lparr> startX = 2, startY = 3, endX = 2, endY = 6 \<rparr> \<inter> yInterval (roomBounds ?f) = {3}"
    "spanY \<lparr> startX = 2, startY = 3, endX = 2, endY = 6 \<rparr> \<inter> yInterval (roomBounds ?t) = {6}"
    unfolding e by simp_all
  with h1 h2 h3 h4 h5' h6 v show ?thesis
    by blast
qed

section \<open>Router: the L-shaped corridor\<close>



section \<open>Repair: helper facts\<close>

lemma Math_round_of_int: "Math_round (of_int k) = of_int k"
proof -
  have "\<lfloor>(of_int k :: real) + 1 / 2\<rfloor> = k"
    by (simp add: floor_eq_iff)
  then show ?thesis
    by (simp add: Math_round_def)
qed

lemma Math_round_idem: "Math_round (Math_round x) = Math_round x"
  unfolding Math_round_def [of x] by (rule Math_round_of_int)

lemma Math_round_max2: "Math_round (max 2 (Math_round x)) = max 2 (Math_round x)"
proof -
  have "max 2 (Math_round x) = of_int (max 2 \<lfloor>x + 1 / 2\<rfloor>)"
    by (simp add: Math_round_def max_def)
  then show ?thesis
    by (simp only: Math_round_of_int)
qed

lemma fixRoom_idem: "fixRoom (fixRoom r) = fixRoom r"
  by (simp add: fixRoom_def Math_round_idem Math_round_max2)

lemma rid_fixRoom: "rid (fixRoom r) = rid r"
  by (simp add: fixRoom_def)

lemma fixRooms_eq: "fixRooms m rs = (map fixRoom rs, registerRooms m (map fixRoom rs))"
  by (induction rs arbitrary: m) (simp_all add: registerRooms_def Let_def)

lemma registerRooms_keys:
  assumes "\<And>k r. m k = Some r \<Longrightarrow> rid r = k"
    and "registerRooms m rs k = Some r"
  shows "rid r = k"
  using assms
proof (induction rs arbitrary: m)
  case Nil
  then show ?case by (simp add: registerRooms_def)
next
  case (Cons a rs)
  have "registerRooms (m(rid a \<mapsto> a)) rs k = Some r"
    using Cons.prems(2) by (simp add: registerRooms_def)
  moreover have "\<And>k' r'. (m(rid a \<mapsto> a)) k' = Some r' \<Longrightarrow> rid r' = k'"
    using Cons.prems(1) by (auto split: if_splits)
  ultimately show ?case
    by (rule Cons.IH [rotated])
qed

lemma widthOrOne_idem: "widthOrOne (Some (widthOrOne w)) = widthOrOne w"
  by (simp add: widthOrOne_def split: option.splits)

lemma rebuildCorridors_idem:
  assumes "\<And>k r. m k = Some r \<Longrightarrow> rid r = k"
  shows "rebuildCorridors m (rebuildCorridors m cs) = rebuildCorridors m cs"
proof (induction cs)
  case Nil
  then show ?case by simp
next
  case (Cons c cs)
  show ?case
  proof (cases "m (fromRoom c)")
    case None
    then show ?thesis using Cons by simp
  next
    case (Some f)
    note f = this
    show ?thesis
    proof (cases "m (toRoom c)")
      case None
      then show ?thesis using Cons f by simp
    next
      case (Some t)
      have "rid f = fromRoom c" and "rid t = toRoom c"
        using assms f Some by auto
      then show ?thesis
        using Cons f Some
        by (simp add: buildCorridorBetweenRooms_def Let_def widthOrOne_idem)
    qed
  qed
qed

lemma generateDefaultPOIs_shape:
  assumes "rs \<noteq> []"
  shows "\<exists>a b. generateDefaultPOIs rs = Inr [a, b] \<and> ptype a = spawn \<and> ptype b = goal"
  using assms by (simp add: generateDefaultPOIs_def Let_def)

lemma fixPOIs_total:
  assumes "rs \<noteq> []"
  shows "\<exists>ps. fixPOIs rs ps0 = Inr ps"
proof -
  from generateDefaultPOIs_shape [OF assms]
  obtain a b where "generateDefaultPOIs rs = Inr [a, b]" by blast
  then show ?thesis
    by (simp add: fixPOIs_def split: option.splits)
qed

lemma fixPOIs_result:
  assumes "rs \<noteq> []" and "fixPOIs rs ps0 = Inr ps"
  shows "2 \<le> length ps \<and> hasType spawn ps \<and> hasType goal ps"
proof -
  from generateDefaultPOIs_shape [OF assms(1)]
  obtain a b where d: "generateDefaultPOIs rs = Inr [a, b]" "ptype a = spawn" "ptype b = goal"
    by blast
  have dflt: "2 \<le> length [a, b] \<and> hasType spawn [a, b] \<and> hasType goal [a, b]"
    using d(2,3) by (simp add: hasType_def)
  show ?thesis
    using assms(2) d(1) dflt
    by (auto simp: fixPOIs_def split: option.splits if_splits)
qed

lemma fixPOIs_keeps:
  assumes "2 \<le> length ps" and "hasType spawn ps" and "hasType goal ps"
  shows "fixPOIs rs (Some ps) = Inr ps"
  using assms by (simp add: fixPOIs_def)

lemma fixPOIs_regenerated:
  assumes "regeneratesPOIs ps0"
  shows "fixPOIs rs ps0 = generateDefaultPOIs rs"
proof (cases "generateDefaultPOIs rs")
  case (Inl e)
  then show ?thesis
    using assms
    by (auto simp: fixPOIs_def regeneratesPOIs_def split: option.splits)
next
  case (Inr d)
  then have "rs \<noteq> []"
    by (auto simp: generateDefaultPOIs_def split: if_splits)
  from generateDefaultPOIs_shape [OF this] Inr
  have "hasType spawn d" and "hasType goal d"
    by (auto simp: hasType_def)
  then show ?thesis
    using assms Inr
    by (auto simp: fixPOIs_def regeneratesPOIs_def split: option.splits)
qed

lemma fixCriticalPath_length:
  assumes "2 \<le> length rs"
  shows "2 \<le> length (fixCriticalPath rs cp)"
  using assms by (simp add: fixCriticalPath_def split: option.splits)

lemma fixCriticalPath_keeps:
  assumes "2 \<le> length ids"
  shows "fixCriticalPath rs (Some ids) = ids"
  using assms by (simp add: fixCriticalPath_def)

text \<open>The repair of a level with at least two rooms, written out.\<close>

lemma validateAndFixLayout_eq:
  assumes "level x = Some lvl" and "rooms lvl = Some rs" and "2 \<le> length rs"
    and "fixPOIs (map fixRoom rs) (pois lvl) = Inr ps"
  shows "validateAndFixLayout x =
     Inr (x \<lparr> level := Some (lvl
       \<lparr> grid := Some (case grid lvl of None \<Rightarrow> defaultGrid | Some g0 \<Rightarrow> g0),
         rooms := Some (map fixRoom rs),
         corridors := rebuildCorridors (registerRooms Map.empty (map fixRoom rs)) (corridors lvl),
         pois := Some ps,
         criticalPath := Some (fixCriticalPath (map fixRoom rs) (criticalPath lvl)) \<rparr>) \<rparr>)"
  using assms by (simp add: validateAndFixLayout_def fixRooms_eq Let_def)

section \<open>Repair is idempotent\<close>

text \<open>
  C4.  For every raw layout whose level has at least two rooms the repair
  succeeds, and repairing the repaired layout returns it unchanged:
  \<open>repair (repair x) = repair x\<close>.  The proof goes through the room coercion,
  the rebuilt corridors, the POIs, the critical path and the grid configuration.
\<close>

theorem repair_idempotent:
  assumes "level x = Some lvl" and "rooms lvl = Some rs" and "2 \<le> length rs"
  shows "\<exists>y. validateAndFixLayout x = Inr y \<and> validateAndFixLayout y = Inr y"
proof -
  let ?rs = "map fixRoom rs"
  let ?m = "registerRooms Map.empty ?rs"
  have ne: "?rs \<noteq> []" and len: "2 \<le> length ?rs"
    using assms(3) by auto
  from fixPOIs_total [OF ne] obtain ps where ps: "fixPOIs ?rs (pois lvl) = Inr ps"
    by blast
  let ?lvl = "lvl
       \<lparr> grid := Some (case grid lvl of None \<Rightarrow> defaultGrid | Some g0 \<Rightarrow> g0),
         rooms := Some ?rs,
         corridors := rebuildCorridors ?m (corridors lvl),
         pois := Some ps,
         criticalPath := Some (fixCriticalPath ?rs (criticalPath lvl)) \<rparr>"
  let ?y = "x \<lparr> level := Some ?lvl \<rparr>"
  have first: "validateAndFixLayout x = Inr ?y"
    by (rule validateAndFixLayout_eq [OF assms ps])
  have again: "map fixRoom ?rs = ?rs"
    by (simp add: fixRoom_idem)
  have keys: "\<And>k r. ?m k = Some r \<Longrightarrow> rid r = k"
    by (rule registerRooms_keys [of Map.empty]) simp_all
  have cs: "rebuildCorridors ?m (rebuildCorridors ?m (corridors lvl))
      = rebuildCorridors ?m (corridors lvl)"
    by (rule rebuildCorridors_idem [OF keys])
  have pk: "fixPOIs ?rs (Some ps) = Inr ps"
    using fixPOIs_result [OF ne ps] by (simp add: fixPOIs_keeps)
  have cp: "fixCriticalPath ?rs (Some (fixCriticalPath ?rs (criticalPath lvl)))
      = fixCriticalPath ?rs (criticalPath lvl)"
    by (rule fixCriticalPath_keeps [OF fixCriticalPath_length [OF len]])
  have l2: "level ?y = Some ?lvl" and r2: "rooms ?lvl = Some ?rs"
    by simp_all
  have p2: "fixPOIs (map fixRoom ?rs) (pois ?lvl) = Inr ps"
    using pk by (simp only: again) simp
  have "validateAndFixLayout ?y = Inr ?y"
    unfolding validateAndFixLayout_eq [OF l2 r2 len p2]
    by (simp only: again) (simp add: cs cp)
  with first show ?thesis
    by blast
qed

theorem repair_idempotent_witness:
  "validateAndFixLayout \<lparr> level = Some (mkLevel
       [mkRoom ''a'' (1 / 2) 0 4 (13 / 4) None, mkRoom ''b'' 0 6 1 3 (Some [''goal''])]
       [\<lparr> cid = ''c'', fromRoom = ''a'', toRoom = ''b'', segments = None, widthCells = None,
          legacyStartX = None, legacyStartY = None, legacyEndX = None, legacyEndY = None \<rparr>]
       None) \<rparr>
     = Inr \<lparr> level = Some \<lparr> lname = ''L'', ltype = ''dungeon'', theme = ''stone'',
         grid = Some \<lparr> cellSize = 4, totalWidth = 30, totalHeight = 50 \<rparr>,
         rooms = Some [mkRoom ''a'' 1 0 4 3 (Some [''mid'']), mkRoom ''b'' 0 6 2 3 (Some [''goal''])],
         corridors = [\<lparr> cid = ''c'', fromRoom = ''a'', toRoom = ''b'',
           segments = Some [\<lparr> startX = 1, startY = 3, endX = 1, endY = 6 \<rparr>],
           widthCells = Some 1,
           legacyStartX = Some 1, legacyStartY = Some 3, legacyEndX = Some 1, legacyEndY = Some 6 \<rparr>],
         pois = Some [mkPOI ''poi_spawn'' spawn ''a'', mkPOI ''poi_goal'' goal ''b''],
         criticalPath = Some [''a'', ''b''] \<rparr> \<rparr> \<and>
   validateAndFixLayout \<lparr> level = Some \<lparr> lname = ''L'', ltype = ''dungeon'', theme = ''stone'',
         grid = Some \<lparr> cellSize = 4, totalWidth = 30, totalHeight = 50 \<rparr>,
         rooms = Some [mkRoom ''a'' 1 0 4 3 (Some [''mid'']), mkRoom ''b'' 0 6 2 3 (Some [''goal''])],
         corridors = [\<lparr> cid = ''c'', fromRoom = ''a'', toRoom = ''b'',
           segments = Some [\<lparr> startX = 1, startY = 3, endX = 1, endY = 6 \<rparr>],
           widthCells = Some 1,
           legacyStartX = Some 1, legacyStartY = Some 3, legacyEndX = Some 1, legacyEndY = Some 6 \<rparr>],
         pois = Some [mkPOI ''poi_spawn'' spawn ''a'', mkPOI ''poi_goal'' goal ''b''],
         criticalPath = Some [''a'', ''b''] \<rparr> \<rparr>
     = Inr \<lparr> level = Some \<lparr> lname = ''L'', ltype = ''dungeon'', theme = ''stone'',
         grid = Some \<lparr> cellSize = 4, totalWidth = 30, totalHeight = 50 \<rparr>,
         rooms = Some [mkRoom ''a'' 1 0 4 3 (Some [''mid'']), mkRoom ''b'' 0 6 2 3 (Some [''goal''])],
         corridors = [\<lparr> cid = ''c'', fromRoom = ''a'', toRoom = ''b'',
           segments = Some [\<lparr> startX = 1, startY = 3, endX = 1, endY = 6 \<rparr>],
           widthCells = Some 1,
           legacyStartX = Some 1, legacyStartY = Some 3, legacyEndX = Some 1, legacyEndY = Some 6 \<rparr>],
         pois = Some [mkPOI ''poi_spawn'' spawn ''a'', mkPOI ''poi_goal'' goal ''b''],
         criticalPath = Some [''a'', ''b''] \<rparr> \<rparr>"
proof -
  let ?rs = "[mkRoom ''a'' (1 / 2) 0 4 (13 / 4) None, mkRoom ''b'' 0 6 1 3 (Some [''goal''])]"
  let ?lvl = "mkLevel ?rs
       [\<lparr> cid = ''c'', fromRoom = ''a'', toRoom = ''b'', segments = None, widthCells = None,
          legacyStartX = None, legacyStartY = None, legacyEndX = None, legacyEndY = None \<rparr>]
       None"
  let ?x = "\<lparr> level = Some ?lvl \<rparr>"
  have h1: "level ?x = Some ?lvl" by simp
  have h2: "rooms ?lvl = Some ?rs" by (simp add: mkLevel_def)
  have h3: "2 \<le> length ?rs" by simp
  from repair_idempotent [OF h1 h2 h3]
  obtain y where y: "validateAndFixLayout ?x = Inr y" "validateAndFixLayout y = Inr y"
    by blast
  have v: "validateAndFixLayout ?x
     = Inr \<lparr> level = Some \<lparr> lname = ''L'', ltype = ''dungeon'', theme = ''stone'',
         grid = Some \<lparr> cellSize = 4, totalWidth = 30, totalHeight = 50 \<rparr>,
         rooms = Some [mkRoom ''a'' 1 0 4 3 (Some [''mid'']), mkRoom ''b'' 0 6 2 3 (Some [''goal''])],
         corridors = [\<lparr> cid = ''c'', fromRoom = ''a'', toRoom = ''b'',
           segments = Some [\<lparr> startX = 1, startY = 3, endX = 1, endY = 6 \<rparr>],
           widthCells = Some 1,
           legacyStartX = Some 1, legacyStartY = Some 3, legacyEndX = Some 1, legacyEndY = Some 6 \<rparr>],
         pois = Some [mkPOI ''poi_spawn'' spawn ''a'', mkPOI ''poi_goal'' goal ''b''],
         criticalPath = Some [''a'', ''b''] \<rparr> \<rparr>"
    by (simp add: validateAndFixLayout_def mkLevel_def mkRoom_def mkPOI_def fixRoom_def
        Math_round_def defaultGrid_def GRID_CELL_SIZE_def fixPOIs_def generateDefaultPOIs_def
        tagsInclude_def hasType_def fixCriticalPath_def widthOrOne_def
        buildCorridorBetweenRooms_def routeSegments_def roomBounds_def getOverlap_def
        buildVerticalCorridor_def Math_floor_def Let_def)
  from y v show ?thesis
    by simp
qed

section \<open>Repair: spawn and goal\<close>

text \<open>
  C5, as the specification states it, fails: the repair only checks that a
  spawn and a goal exist.  A raw level with two rooms and the POIs
  spawn, spawn, goal keeps all three, so the repaired level has two spawns.
\<close>

theorem repair_keeps_duplicate_spawn_counterexample:
  "\<exists>y lvl ps.
     validateAndFixLayout \<lparr> level = Some (mkLevel
         [mkRoom ''a'' 0 0 4 3 (Some [''entry'']), mkRoom ''b'' 0 6 4 3 (Some [''goal''])] []
         (Some [mkPOI ''p1'' spawn ''a'', mkPOI ''p2'' spawn ''b'', mkPOI ''p3'' goal ''b''])) \<rparr>
       = Inr y \<and>
     level y = Some lvl \<and>
     pois lvl = Some [mkPOI ''p1'' spawn ''a'', mkPOI ''p2'' spawn ''b'', mkPOI ''p3'' goal ''b''] \<and>
     pois lvl = Some ps \<and> countType spawn ps = 2 \<and> countType spawn ps \<noteq> 1"
  by (simp add: validateAndFixLayout_def mkLevel_def mkRoom_def mkPOI_def fixRooms_eq
      fixPOIs_def hasType_def countType_def Let_def)

text \<open>
  C5, amended.  For every raw layout whose level has at least two rooms, the
  repaired level's POI list holds at least one spawn and at least one goal.
  When the raw list is missing, has fewer than two POIs, or lacks a spawn or a
  goal, the POIs are regenerated and there is exactly one spawn and exactly one
  goal; otherwise the raw list is kept as it is.
\<close>

theorem repair_spawn_and_goal_exist:
  assumes "level x = Some lvl" and "rooms lvl = Some rs" and "2 \<le> length rs"
  shows "\<exists>y lvl' ps. validateAndFixLayout x = Inr y \<and> level y = Some lvl' \<and>
           pois lvl' = Some ps \<and>
           1 \<le> countType spawn ps \<and> 1 \<le> countType goal ps \<and>
           (if regeneratesPOIs (pois lvl)
            then length ps = 2 \<and> countType spawn ps = 1 \<and> countType goal ps = 1
            else pois lvl = Some ps)"
proof -
  let ?rs = "map fixRoom rs"
  have ne: "?rs \<noteq> []"
    using assms(3) by auto
  from fixPOIs_total [OF ne] obtain ps where ps: "fixPOIs ?rs (pois lvl) = Inr ps"
    by blast
  have has: "hasType spawn ps" "hasType goal ps"
    using fixPOIs_result [OF ne ps] by simp_all
  have pos: "\<And>ty. hasType ty ps \<Longrightarrow> 1 \<le> countType ty ps"
  proof -
    fix ty assume "hasType ty ps"
    then have "filter (\<lambda>p. ptype p = ty) ps \<noteq> []"
      by (auto simp: hasType_def list_ex_iff filter_empty_conv)
    then show "1 \<le> countType ty ps"
      by (cases "filter (\<lambda>p. ptype p = ty) ps") (simp_all add: countType_def)
  qed
  have branch: "if regeneratesPOIs (pois lvl)
            then length ps = 2 \<and> countType spawn ps = 1 \<and> countType goal ps = 1
            else pois lvl = Some ps"
  proof (cases "regeneratesPOIs (pois lvl)")
    case True
    from generateDefaultPOIs_shape [OF ne]
    obtain a b where d: "generateDefaultPOIs ?rs = Inr [a, b]" "ptype a = spawn" "ptype b = goal"
      by blast
    have "ps = [a, b]"
      using ps d(1) fixPOIs_regenerated [OF True, of ?rs] by simp
    then show ?thesis
      using True d(2,3) by (simp add: countType_def)
  next
    case False
    then obtain ps0 where ps0: "pois lvl = Some ps0" "2 \<le> length ps0"
        "hasType spawn ps0" "hasType goal ps0"
      by (auto simp: regeneratesPOIs_def split: option.splits)
    then have "ps = ps0"
      using ps fixPOIs_keeps [of ps0 ?rs] by simp
    then show ?thesis
      using False ps0(1) by simp
  qed
  show ?thesis
    unfolding validateAndFixLayout_eq [OF assms ps]
    using pos [OF has(1)] pos [OF has(2)] branch by simp
qed

theorem repair_spawn_and_goal_exist_witness:
  "(\<exists>y lvl' ps.
      validateAndFixLayout \<lparr> level = Some (mkLevel
          [mkRoom ''a'' 0 0 4 3 None, mkRoom ''b'' 0 6 4 3 None, mkRoom ''c'' 0 12 4 3 None]
          [] None) \<rparr> = Inr y \<and>
      level y = Some lvl' \<and> pois lvl' = Some ps \<and>
      1 \<le> countType spawn ps \<and> 1 \<le> countType goal ps \<and>
      length ps = 2 \<and> countType spawn ps = 1 \<and> countType goal ps = 1) \<and>
   regeneratesPOIs None"
proof -
  let ?rs = "[mkRoom ''a'' 0 0 4 3 None, mkRoom ''b'' 0 6 4 3 None, mkRoom ''c'' 0 12 4 3 None]"
  let ?lvl = "mkLevel ?rs [] None"
  let ?x = "\<lparr> level = Some ?lvl \<rparr>"
  have h1: "level ?x = Some ?lvl" by simp
  have h2: "rooms ?lvl = Some ?rs" by (simp add: mkLevel_def)
  have h3: "2 \<le> length ?rs" by simp
  have r: "regeneratesPOIs (pois ?lvl)" "regeneratesPOIs None"
    by (simp_all add: regeneratesPOIs_def mkLevel_def)
  from repair_spawn_and_goal_exist [OF h1 h2 h3] r show ?thesis
    by simp
qed

section \<open>Repair: room coercion\<close>

lemma Math_round_nearestTieUp: "nearestTieUp v (Math_round v)"
proof -
  have "of_int \<lfloor>v + 1 / 2\<rfloor> \<le> v + 1 / 2"
    by (rule of_int_floor_le)
  moreover have "v + 1 / 2 < of_int \<lfloor>v + 1 / 2\<rfloor> + 1"
    by linarith
  ultimately have "v - 1 / 2 < of_int \<lfloor>v + 1 / 2\<rfloor> \<and> of_int \<lfloor>v + 1 / 2\<rfloor> \<le> v + 1 / 2"
    by linarith
  then show ?thesis
    by (simp add: nearestTieUp_def Math_round_def)
qed

text \<open>
  C6, as the specification states it, fails on the rounding mode:
  \<^verbatim>\<open>Math.round\<close> sends a tie towards \<open>+\<infinity>\<close>, so the repair turns
  \<open>gridX = -5/2\<close> into \<open>-2\<close>, where rounding half away from zero gives \<open>-3\<close>.
\<close>

theorem repair_rounds_negative_half_up_counterexample:
  "\<exists>y lvl r rest.
     validateAndFixLayout \<lparr> level = Some (mkLevel
         [mkRoom ''a'' (- 5 / 2) 0 4 3 None, mkRoom ''b'' 0 6 4 3 None] [] None) \<rparr> = Inr y \<and>
     level y = Some lvl \<and> rooms lvl = Some (r # rest) \<and>
     gridX r = - 2 \<and> roundHalfAwayFromZero (- 5 / 2) = - 3 \<and>
     gridX r \<noteq> roundHalfAwayFromZero (- 5 / 2)"
  by (simp add: validateAndFixLayout_def mkLevel_def mkRoom_def fixRooms_eq fixRoom_def
      Math_round_def roundHalfAwayFromZero_def fixPOIs_def generateDefaultPOIs_def
      tagsInclude_def hasType_def Let_def)

text \<open>
  C6, amended.  For every room of the raw input (at position \<open>i\<close>), the
  repaired room at the same position has \<open>gridX\<close> and \<open>gridY\<close> coerced to the
  nearest integer with a tie going up (towards \<open>+\<infinity>\<close>, so \<open>-5/2\<close> becomes \<open>-2\<close>),
  \<open>width\<close> and \<open>height\<close> coerced to \<open>max 2\<close> of the value rounded the same way,
  and a missing \<open>tags\<close> replaced by \<open>[mid]\<close>; id, name and material are kept.
\<close>

theorem repair_coerces_rooms:
  assumes "level x = Some lvl" and "rooms lvl = Some rs" and "2 \<le> length rs"
    and "i < length rs"
  shows "\<exists>y lvl' rs'. validateAndFixLayout x = Inr y \<and> level y = Some lvl' \<and>
           rooms lvl' = Some rs' \<and> length rs' = length rs \<and>
           gridX (rs' ! i) = Math_round (gridX (rs ! i)) \<and>
           nearestTieUp (gridX (rs ! i)) (gridX (rs' ! i)) \<and>
           gridY (rs' ! i) = Math_round (gridY (rs ! i)) \<and>
           nearestTieUp (gridY (rs ! i)) (gridY (rs' ! i)) \<and>
           width (rs' ! i) = max 2 (Math_round (width (rs ! i))) \<and>
           nearestTieUp (width (rs ! i)) (Math_round (width (rs ! i))) \<and>
           height (rs' ! i) = max 2 (Math_round (height (rs ! i))) \<and>
           nearestTieUp (height (rs ! i)) (Math_round (height (rs ! i))) \<and>
           tags (rs' ! i) = Some (case tags (rs ! i) of None \<Rightarrow> [''mid''] | Some ts \<Rightarrow> ts) \<and>
           rid (rs' ! i) = rid (rs ! i) \<and> rname (rs' ! i) = rname (rs ! i) \<and>
           material (rs' ! i) = material (rs ! i)"
proof -
  let ?rs = "map fixRoom rs"
  have ne: "?rs \<noteq> []"
    using assms(3) by auto
  from fixPOIs_total [OF ne] obtain ps where ps: "fixPOIs ?rs (pois lvl) = Inr ps"
    by blast
  have nth: "?rs ! i = fixRoom (rs ! i)"
    using assms(4) by simp
  show ?thesis
    unfolding validateAndFixLayout_eq [OF assms(1-3) ps]
    by (simp add: nth Math_round_nearestTieUp) (simp add: fixRoom_def Math_round_nearestTieUp)
qed

theorem repair_coerces_rooms_witness:
  "\<exists>y lvl' rs'.
     validateAndFixLayout \<lparr> level = Some (mkLevel
         [mkRoom ''a'' (- 5 / 2) (7 / 2) (1 / 4) (33 / 10) None, mkRoom ''b'' 0 6 4 3 None]
         [] None) \<rparr> = Inr y \<and>
     level y = Some lvl' \<and> rooms lvl' = Some rs' \<and> length rs' = 2 \<and>
     gridX (rs' ! 0) = - 2 \<and> gridY (rs' ! 0) = 4 \<and>
     width (rs' ! 0) = 2 \<and> height (rs' ! 0) = 3 \<and> tags (rs' ! 0) = Some [''mid'']"
proof -
  let ?rs = "[mkRoom ''a'' (- 5 / 2) (7 / 2) (1 / 4) (33 / 10) None, mkRoom ''b'' 0 6 4 3 None]"
  let ?lvl = "mkLevel ?rs [] None"
  let ?x = "\<lparr> level = Some ?lvl \<rparr>"
  have h1: "level ?x = Some ?lvl" by simp
  have h2: "rooms ?lvl = Some ?rs" by (simp add: mkLevel_def)
  have h3: "2 \<le> length ?rs" and h4: "0 < length ?rs" by simp_all
  from repair_coerces_rooms [OF h1 h2 h3 h4]
  obtain y lvl' rs' where r:
    "validateAndFixLayout ?x = Inr y" "level y = Some lvl'" "rooms lvl' = Some rs'"
    "length rs' = length ?rs"
    "gridX (rs' ! 0) = Math_round (gridX (?rs ! 0))"
    "gridY (rs' ! 0) = Math_round (gridY (?rs ! 0))"
    "width (rs' ! 0) = max 2 (Math_round (width (?rs ! 0)))"
    "height (rs' ! 0) = max 2 (Math_round (height (?rs ! 0)))"
    "tags (rs' ! 0) = Some (case tags (?rs ! 0) of None \<Rightarrow> [''mid''] | Some ts \<Rightarrow> ts)"
    by blast
  from r(4-9) have
    "length rs' = 2 \<and> gridX (rs' ! 0) = - 2 \<and> gridY (rs' ! 0) = 4 \<and>
     width (rs' ! 0) = 2 \<and> height (rs' ! 0) = 3 \<and> tags (rs' ! 0) = Some [''mid'']"
    by (simp add: mkRoom_def Math_round_def)
  with r(1-3) show ?thesis
    by blast
qed

section \<open>Wall carving: helper facts\<close>

lemma carveOpenings_eq:
  "carveOpenings axis start endp color os (walls, c, i) =
     (walls @ carvedSpans axis start endp color os c i, carvedCursor os c, carvedNext os c i)"
  by (induction os arbitrary: walls c i)
    (simp_all add: Let_def spanBetween_def openingLo_def openingHi_def)

lemma spanBetween_lo_hi:
  "spanLo axis (spanBetween axis start endp color lo hi i) = lo"
  "spanHi axis (spanBetween axis start endp color lo hi i) = hi"
  by (cases axis; simp add: spanLo_def spanHi_def spanBetween_def mkWall_def axisCoord_def
      vx_def vy_def vz_def)+

lemma createWallWithOpenings_eq:
  "createWallWithOpenings walls startId start endp axis openings color =
     walls @
     (if openings = [] then [mkWall startId start endp color]
      else carvedSpans axis start endp color (sort_key oposition openings) (axisCoord axis start) startId
           @ (if carvedCursor (sort_key oposition openings) (axisCoord axis start) < axisCoord axis endp
              then [spanBetween axis start endp color
                      (carvedCursor (sort_key oposition openings) (axisCoord axis start))
                      (axisCoord axis endp)
                      (carvedNext (sort_key oposition openings) (axisCoord axis start) startId)]
              else []))"
  by (cases axis; simp add: createWallWithOpenings_def carveOpenings_eq Let_def spanBetween_def
      axisCoord_def)

text \<open>The cursor only advances.\<close>

lemma carvedCursor_ge: "c \<le> carvedCursor os c"
proof (induction os arbitrary: c)
  case Nil
  then show ?case by simp
next
  case (Cons a os)
  have "c \<le> max c (openingHi a)" by simp
  also have "\<dots> \<le> carvedCursor os (max c (openingHi a))" by (rule Cons.IH)
  finally show ?case by simp
qed

lemma carvedSpans_length: "length (carvedSpans axis start endp color os c i) \<le> length os"
  by (induction os arbitrary: c i) (simp_all add: le_SucI)

lemma carvedSpans_bounds:
  assumes "widthsNonNegative os" and "w \<in> set (carvedSpans axis start endp color os c i)"
  shows "c \<le> spanLo axis w \<and> spanLo axis w < spanHi axis w \<and> spanHi axis w \<le> carvedCursor os c"
  using assms
proof (induction os arbitrary: c i)
  case Nil
  then show ?case by simp
next
  case (Cons a os)
  let ?c' = "max c (openingHi a)"
  have wn: "widthsNonNegative os" and wa: "0 \<le> owidth a"
    using Cons.prems(1) by (simp_all add: widthsNonNegative_def)
  have lohi: "openingLo a \<le> openingHi a"
    using wa by (simp add: openingLo_def openingHi_def)
  have mono: "?c' \<le> carvedCursor os ?c'"
    by (rule carvedCursor_ge)
  consider (first) "c < openingLo a" "w = spanBetween axis start endp color c (openingLo a) i"
    | (rest) j where "w \<in> set (carvedSpans axis start endp color os ?c' j)"
    using Cons.prems(2) by (auto split: if_splits)
  then show ?case
  proof cases
    case first
    then show ?thesis
      using lohi mono by (simp add: spanBetween_lo_hi)
  next
    case rest
    from Cons.IH [OF wn rest] show ?thesis
      by simp
  qed
qed

lemma carvedSpans_increasing:
  assumes "widthsNonNegative os"
  shows "spansIncreasing axis (carvedSpans axis start endp color os c i)"
  using assms
proof (induction os arbitrary: c i)
  case Nil
  then show ?case by (simp add: spansIncreasing_def)
next
  case (Cons a os)
  let ?c' = "max c (openingHi a)"
  have wn: "widthsNonNegative os" and wa: "0 \<le> owidth a"
    using Cons.prems(1) by (simp_all add: widthsNonNegative_def)
  have lohi: "openingLo a \<le> openingHi a"
    using wa by (simp add: openingLo_def openingHi_def)
  have later: "\<And>w j. w \<in> set (carvedSpans axis start endp color os ?c' j) \<Longrightarrow> openingLo a \<le> spanLo axis w"
    using carvedSpans_bounds [OF wn] lohi by fastforce
  show ?case
    using Cons.IH [OF wn] later
    by (auto simp: spansIncreasing_def spanBetween_lo_hi)
qed


lemma widthsNonNegative_sort: "widthsNonNegative (sort_key oposition os) = widthsNonNegative os"
  by (simp add: widthsNonNegative_def list_all_iff)

lemma mkWall_lo_hi:
  "spanLo axis (mkWall i s e color) = axisCoord axis s"
  "spanHi axis (mkWall i s e color) = axisCoord axis e"
  by (simp_all add: spanLo_def spanHi_def mkWall_def)

text \<open>Openings that follow one another along the wall.\<close>

lemma chained_inside:
  assumes "chained c os e" and "a \<in> set os"
  shows "c \<le> openingLo a \<and> openingLo a \<le> openingHi a \<and> openingHi a \<le> carvedCursor os c"
  using assms
proof (induction os arbitrary: c)
  case Nil
  then show ?case by simp
next
  case (Cons b os)
  have c': "max c (openingHi b) = openingHi b"
    using Cons.prems(1) by simp
  have ch: "chained (openingHi b) os e"
    using Cons.prems(1) by simp
  have mono: "openingHi b \<le> carvedCursor os (openingHi b)"
    by (rule carvedCursor_ge)
  show ?case
  proof (cases "a = b")
    case True
    then show ?thesis
      using Cons.prems(1) mono by (simp add: c')
  next
    case False
    then have "a \<in> set os"
      using Cons.prems(2) by simp
    from Cons.IH [OF ch this] show ?thesis
      using Cons.prems(1) by (simp add: c')
  qed
qed

lemma chained_cursor_le:
  assumes "chained c os e"
  shows "carvedCursor os c \<le> e"
  using assms
proof (induction os arbitrary: c)
  case Nil
  then show ?case by simp
next
  case (Cons b os)
  have c': "max c (openingHi b) = openingHi b"
    using Cons.prems by simp
  show ?case
    using Cons.IH [of "openingHi b"] Cons.prems by (simp add: c')
qed

lemma chained_widths:
  assumes "chained c os e"
  shows "widthsNonNegative os"
  using assms
proof (induction os arbitrary: c)
  case Nil
  then show ?case by (simp add: widthsNonNegative_def)
next
  case (Cons b os)
  have "0 \<le> owidth b"
    using Cons.prems by (simp add: openingLo_def openingHi_def)
  moreover have "widthsNonNegative os"
    using Cons.IH [of "openingHi b"] Cons.prems by simp
  ultimately show ?case
    by (simp add: widthsNonNegative_def)
qed

lemma chained_apart:
  assumes "chained c os e"
    and "w \<in> set (carvedSpans axis start endp color os c i)" and "a \<in> set os"
  shows "spanApartFromOpening axis w a"
  using assms
proof (induction os arbitrary: c i)
  case Nil
  then show ?case by simp
next
  case (Cons b os)
  have c': "max c (openingHi b) = openingHi b"
    using Cons.prems(1) by simp
  have ch: "chained (openingHi b) os e"
    using Cons.prems(1) by simp
  have lohi: "openingLo b \<le> openingHi b"
    using Cons.prems(1) by simp
  note wn = chained_widths [OF ch]
  consider (first) "c < openingLo b" "w = spanBetween axis start endp color c (openingLo b) i"
    | (rest) j where "w \<in> set (carvedSpans axis start endp color os (openingHi b) j)"
    using Cons.prems(2) by (auto simp: c' split: if_splits)
  then show ?case
  proof cases
    case first
    have "openingLo b \<le> openingLo a"
    proof (cases "a = b")
      case True
      then show ?thesis by simp
    next
      case False
      then have "a \<in> set os" using Cons.prems(3) by simp
      from chained_inside [OF ch this] lohi show ?thesis by simp
    qed
    then show ?thesis
      using first by (simp add: spanApartFromOpening_def spanBetween_lo_hi)
  next
    case rest
    show ?thesis
    proof (cases "a = b")
      case True
      from carvedSpans_bounds [OF wn rest] have "openingHi b \<le> spanLo axis w" by simp
      then show ?thesis
        using True by (simp add: spanApartFromOpening_def)
    next
      case False
      then have "a \<in> set os" using Cons.prems(3) by simp
      from Cons.IH [OF ch rest this] show ?thesis .
    qed
  qed
qed

lemma chained_cover:
  assumes "chained c os e"
  shows "(\<Union>w\<in>set (carvedSpans axis start endp color os c i). spanInterval axis w)
           \<union> (\<Union>a\<in>set os. openingInterval a) \<union> {c}
         = {c .. carvedCursor os c}"
  using assms
proof (induction os arbitrary: c i)
  case Nil
  then show ?case by simp
next
  case (Cons b os)
  have c': "max c (openingHi b) = openingHi b"
    using Cons.prems by simp
  have ch: "chained (openingHi b) os e"
    using Cons.prems by simp
  have ord: "c \<le> openingLo b" "openingLo b \<le> openingHi b"
    using Cons.prems by simp_all
  have mono: "openingHi b \<le> carvedCursor os (openingHi b)"
    by (rule carvedCursor_ge)
  let ?R = "\<lambda>j. (\<Union>w\<in>set (carvedSpans axis start endp color os (openingHi b) j). spanInterval axis w)
           \<union> (\<Union>a\<in>set os. openingInterval a)"
  have IH: "\<And>j. ?R j \<union> {openingHi b} = {openingHi b .. carvedCursor os (openingHi b)}"
    by (rule Cons.IH [OF ch])
  have ob: "openingInterval b = {openingLo b .. openingHi b}"
    by (simp add: openingInterval_def)
  have glue: "{c .. openingLo b} \<union> {openingLo b .. openingHi b}
                \<union> {openingHi b .. carvedCursor os (openingHi b)}
              = {c .. carvedCursor os (openingHi b)}"
    using ord mono by auto
  have hi_in: "openingHi b \<in> openingInterval b"
    using ord by (simp add: ob)
  show ?case
  proof (cases "c < openingLo b")
    case True
    have "(\<Union>w\<in>set (carvedSpans axis start endp color (b # os) c i). spanInterval axis w)
           \<union> (\<Union>a\<in>set (b # os). openingInterval a) \<union> {c}
        = {c .. openingLo b} \<union> openingInterval b \<union> (?R (i + 1) \<union> {openingHi b})"
      using True ord hi_in
      by (auto simp: c' spanInterval_def spanBetween_lo_hi)
    also have "\<dots> = {c .. carvedCursor os (openingHi b)}"
      unfolding IH ob by (rule glue)
    finally show ?thesis by (simp add: c')
  next
    case False
    then have eq: "c = openingLo b" using ord by simp
    have "(\<Union>w\<in>set (carvedSpans axis start endp color (b # os) c i). spanInterval axis w)
           \<union> (\<Union>a\<in>set (b # os). openingInterval a) \<union> {c}
        = openingInterval b \<union> (?R i \<union> {openingHi b})"
      using False ord hi_in eq
      by (auto simp: c' ob)
    also have "\<dots> = {c .. carvedCursor os (openingHi b)}"
      unfolding IH ob using ord mono eq by auto
    finally show ?thesis by (simp add: c')
  qed
qed

lemma chained_first_covered:
  assumes "chained c os e" and "os \<noteq> []"
  shows "c \<in> (\<Union>w\<in>set (carvedSpans axis start endp color os c i). spanInterval axis w)
           \<union> (\<Union>a\<in>set os. openingInterval a)"
proof (cases os)
  case Nil
  with assms(2) show ?thesis by simp
next
  case (Cons b rest)
  then have ord: "c \<le> openingLo b" "openingLo b \<le> openingHi b"
    using assms(1) by simp_all
  show ?thesis
  proof (cases "c < openingLo b")
    case True
    then show ?thesis
      using Cons by (simp add: spanInterval_def spanBetween_lo_hi)
  next
    case False
    then have "c \<in> openingInterval b"
      using ord by (simp add: openingInterval_def)
    then show ?thesis
      using Cons by simp
  qed
qed

text \<open>Sorting keeps the openings pairwise apart, and puts them in a chain.\<close>

lemma openingsApart_sym: "openingsApart a b \<Longrightarrow> openingsApart b a"
  by (auto simp: openingsApart_def)

lemma pairwiseApart_insort:
  assumes "pairwiseApart xs" and "\<And>y. y \<in> set xs \<Longrightarrow> openingsApart x y"
  shows "pairwiseApart (insort_key f x xs)"
  using assms
proof (induction xs)
  case Nil
  then show ?case by (simp add: pairwiseApart_def)
next
  case (Cons y ys)
  have "pairwiseApart ys"
    using Cons.prems(1) by (simp add: pairwiseApart_def)
  then have IH: "pairwiseApart (insort_key f x ys)"
    using Cons.IH Cons.prems(2) by simp
  show ?case
    using Cons.prems IH
    by (auto simp: pairwiseApart_def set_insort_key dest: openingsApart_sym)
qed

lemma pairwiseApart_sort:
  assumes "pairwiseApart os"
  shows "pairwiseApart (sort_key f os)"
  using assms
proof (induction os)
  case Nil
  then show ?case by simp
next
  case (Cons a os)
  have "pairwiseApart os" and ap: "\<And>y. y \<in> set os \<Longrightarrow> openingsApart a y"
    using Cons.prems by (simp_all add: pairwiseApart_def)
  then have "pairwiseApart (sort_key f os)"
    using Cons.IH by simp
  then have "pairwiseApart (insort_key f a (sort_key f os))"
    by (rule pairwiseApart_insort) (simp add: ap)
  then show ?case by simp
qed

lemma apart_ordered:
  assumes "openingsApart b a" and "oposition b \<le> oposition a"
    and "openingLo a \<le> openingHi a" and "openingLo b \<le> openingHi b"
  shows "openingHi b \<le> openingLo a"
  using assms by (auto simp: openingsApart_def openingLo_def openingHi_def)

lemma sorted_chained:
  assumes "sorted (map oposition xs)" and "pairwiseApart xs"
    and "\<And>a. a \<in> set xs \<Longrightarrow> c \<le> openingLo a \<and> openingLo a \<le> openingHi a \<and> openingHi a \<le> e"
    and "c \<le> e"
  shows "chained c xs e"
  using assms
proof (induction xs arbitrary: c)
  case Nil
  then show ?case by simp
next
  case (Cons b xs)
  have b: "c \<le> openingLo b" "openingLo b \<le> openingHi b" "openingHi b \<le> e"
    using Cons.prems(3) [of b] by simp_all
  have srt: "sorted (map oposition xs)" and pw: "pairwiseApart xs"
    using Cons.prems(1,2) by (simp_all add: pairwiseApart_def)
  have next_ok: "openingHi b \<le> openingLo a \<and> openingLo a \<le> openingHi a \<and> openingHi a \<le> e"
    if "a \<in> set xs" for a
  proof -
    have a: "openingLo a \<le> openingHi a" "openingHi a \<le> e"
      using Cons.prems(3) [of a] that by simp_all
    have "openingsApart b a" and "oposition b \<le> oposition a"
      using Cons.prems(1,2) that by (auto simp: pairwiseApart_def)
    from apart_ordered [OF this a(1) b(2)] a show ?thesis by simp
  qed
  have "chained (openingHi b) xs e"
    by (rule Cons.IH [OF srt pw next_ok b(3)])
  with b show ?case by simp
qed

lemma openingsInside_chained:
  assumes "openingsInside ws we os" and "pairwiseApart os" and "os \<noteq> []"
  shows "chained ws (sort_key oposition os) we"
proof (rule sorted_chained)
  show "sorted (map oposition (sort_key oposition os))"
    by simp
  show "pairwiseApart (sort_key oposition os)"
    by (rule pairwiseApart_sort [OF assms(2)])
  show "ws \<le> openingLo a \<and> openingLo a \<le> openingHi a \<and> openingHi a \<le> we"
    if "a \<in> set (sort_key oposition os)" for a
    using assms(1) that by (simp add: openingsInside_def list_all_iff)
  from assms(3) obtain a where "a \<in> set os"
    by (cases os) auto
  then show "ws \<le> we"
    using assms(1) by (auto simp: openingsInside_def list_all_iff)
qed

section \<open>Wall carving: coverage\<close>

text \<open>
  C3, as the specification states it, fails when an opening reaches beyond the
  end of the side.  The router puts a corridor on a room's corner column when
  the X overlap of two rooms is one cell wide: for the rooms \<open>R1 = (0,0,4,3)\<close> and
  \<open>R2 = (3,6,4,3)\<close> it is at \<open>x = 3\<close>, and \<^verbatim>\<open>findRoomOpenings\<close> gives the north
  side of \<open>R2\<close>, world X from 12 to 28, one opening centred at 12, of width 4.
  The single span is \<open>[14, 28]\<close>; with the opening \<open>[10, 14]\<close> the covered set is
  \<open>[10, 28]\<close>, not the side: the point 11 is covered and is not on the side.
\<close>

theorem carve_opening_beyond_corner_counterexample:
  "findRoomOpenings (mkRoom ''R2'' 3 6 4 3 (Some [''mid'']))
      [buildCorridorBetweenRooms ''c'' (mkRoom ''R1'' 0 0 4 3 (Some [''mid'']))
         (mkRoom ''R2'' 3 6 4 3 (Some [''mid''])) 1]
     = [mkOpening north 12 4] \<and>
   pairwiseApart [mkOpening north 12 4] \<and>
   createWallWithOpenings [] 0 (12, 0, 24) (28, 0, 24) AxisX [mkOpening north 12 4] ''#4a4a7a''
     = [\<lparr> wid = ''wall_0'', wstart = (14, 0, 24), wend = (28, 0, 24), wheight = 4,
          wcolor = ''#4a4a7a'' \<rparr>] \<and>
   11 \<in> sideCoverage AxisX
      (createWallWithOpenings [] 0 (12, 0, 24) (28, 0, 24) AxisX [mkOpening north 12 4] ''#4a4a7a'')
      [mkOpening north 12 4] \<and>
   11 \<notin> {axisCoord AxisX (12, 0, 24) .. axisCoord AxisX (28, 0, 24)} \<and>
   sideCoverage AxisX
      (createWallWithOpenings [] 0 (12, 0, 24) (28, 0, 24) AxisX [mkOpening north 12 4] ''#4a4a7a'')
      [mkOpening north 12 4]
     \<noteq> {axisCoord AxisX (12, 0, 24) .. axisCoord AxisX (28, 0, 24)}"
proof -
  have f: "findRoomOpenings (mkRoom ''R2'' 3 6 4 3 (Some [''mid'']))
      [buildCorridorBetweenRooms ''c'' (mkRoom ''R1'' 0 0 4 3 (Some [''mid'']))
         (mkRoom ''R2'' 3 6 4 3 (Some [''mid''])) 1]
     = [mkOpening north 12 4]"
    by (simp add: findRoomOpenings_def corridorOpenings_def segmentOpenings_def
        buildCorridorBetweenRooms_def routeSegments_def roomBounds_def getOverlap_def
        buildVerticalCorridor_def Math_floor_def mkRoom_def mkOpening_def widthOrOne_def
        cellsToMeters_def gridToWorldX_def gridToWorldZ_def CELL_SIZE_def GRID_CELL_SIZE_def
        Let_def)
  have v: "createWallWithOpenings [] 0 (12, 0, 24) (28, 0, 24) AxisX [mkOpening north 12 4] ''#4a4a7a''
     = [\<lparr> wid = ''wall_0'', wstart = (14, 0, 24), wend = (28, 0, 24), wheight = 4,
          wcolor = ''#4a4a7a'' \<rparr>]"
    by (simp add: createWallWithOpenings_def mkOpening_def mkWall_def vx_def vy_def vz_def
        WALL_HEIGHT_M_def WALL_HEIGHT_def Let_def)
  have p: "pairwiseApart [mkOpening north 12 4]"
    by (simp add: pairwiseApart_def)
  have i: "11 \<in> sideCoverage AxisX
      [\<lparr> wid = ''wall_0'', wstart = (14, 0, 24), wend = (28, 0, 24), wheight = 4,
          wcolor = ''#4a4a7a'' \<rparr>] [mkOpening north 12 4]"
    by (simp add: sideCoverage_def openingInterval_def openingLo_def openingHi_def mkOpening_def)
  have o: "11 \<notin> {axisCoord AxisX (12, 0, 24) .. axisCoord AxisX (28, 0, 24)}"
    by (simp add: axisCoord_def vx_def)
  from i o have "sideCoverage AxisX
      [\<lparr> wid = ''wall_0'', wstart = (14, 0, 24), wend = (28, 0, 24), wheight = 4,
          wcolor = ''#4a4a7a'' \<rparr>] [mkOpening north 12 4]
     \<noteq> {axisCoord AxisX (12, 0, 24) .. axisCoord AxisX (28, 0, 24)}"
    by blast
  with f p i o show ?thesis
    unfolding v by blast
qed

text \<open>
  C3, amended.  For every wall side and every list of \<open>N\<close> openings that are
  pairwise non-overlapping and each lie inside the side's interval (so none
  reaches beyond an end of the side, and none has a negative width), in any
  order, the carving adds at most \<open>N + 1\<close> spans; the spans together with the
  opening intervals \<open>[center - width/2, center + width/2]\<close> cover exactly the
  side's interval; no span overlaps a later span or an opening (nothing is
  covered twice); and with \<open>N = 0\<close> the one span is the full side.
\<close>

theorem carve_reconstructs_side:
  assumes "openingsInside (axisCoord axis start) (axisCoord axis endp) openings"
    and "pairwiseApart openings"
  shows "\<exists>new. createWallWithOpenings walls startId start endp axis openings color = walls @ new \<and>
           length new \<le> length openings + 1 \<and>
           sideCoverage axis new openings = {axisCoord axis start .. axisCoord axis endp} \<and>
           spansIncreasing axis new \<and>
           (\<forall>w\<in>set new. \<forall>a\<in>set openings. spanApartFromOpening axis w a) \<and>
           (openings = [] \<longrightarrow> new = [mkWall startId start endp color])"
proof (cases "openings = []")
  case True
  then show ?thesis
    by (simp add: createWallWithOpenings_eq sideCoverage_def spanInterval_def mkWall_lo_hi
        spansIncreasing_def)
next
  case False
  let ?xs = "sort_key oposition openings"
  let ?c = "axisCoord axis start" and ?e = "axisCoord axis endp"
  let ?F = "carvedCursor ?xs ?c"
  let ?N = "carvedSpans axis start endp color ?xs ?c startId"
  let ?last = "spanBetween axis start endp color ?F ?e (carvedNext ?xs ?c startId)"
  let ?fin = "if ?F < ?e then [?last] else []"
  have ch: "chained ?c ?xs ?e"
    by (rule openingsInside_chained [OF assms False])
  have xs_ne: "?xs \<noteq> []"
    using False by (metis length_0_conv length_sort)
  note wn = chained_widths [OF ch]
  have Fe: "?F \<le> ?e"
    by (rule chained_cursor_le [OF ch])
  have b: "\<And>w. w \<in> set ?N \<Longrightarrow> spanLo axis w < spanHi axis w \<and> spanHi axis w \<le> ?F"
    using carvedSpans_bounds [OF wn] by blast
  have ins: "\<And>a. a \<in> set openings \<Longrightarrow> openingHi a \<le> ?F"
    using chained_inside [OF ch] by simp
  have eq: "createWallWithOpenings walls startId start endp axis openings color = walls @ (?N @ ?fin)"
    using False by (simp add: createWallWithOpenings_eq)
  have len: "length (?N @ ?fin) \<le> length openings + 1"
    using carvedSpans_length [of axis start endp color ?xs ?c startId] by simp
  have cover0: "(\<Union>w\<in>set ?N. spanInterval axis w) \<union> (\<Union>a\<in>set openings. openingInterval a)
      = {?c .. ?F}"
  proof -
    define S where "S = (\<Union>w\<in>set ?N. spanInterval axis w) \<union> (\<Union>a\<in>set openings. openingInterval a)"
    have A: "S \<union> {?c} = {?c .. ?F}"
      using chained_cover [OF ch, of axis start endp color startId] by (simp add: S_def)
    have B: "?c \<in> S"
      using chained_first_covered [OF ch xs_ne, of axis start endp color startId]
      by (simp add: S_def)
    from B have "S \<union> {?c} = S" by blast
    with A show ?thesis by (simp add: S_def)
  qed
  have cover: "sideCoverage axis (?N @ ?fin) openings = {?c .. ?e}"
  proof -
    have "sideCoverage axis (?N @ ?fin) openings
        = {?c .. ?F} \<union> (if ?F < ?e then {?F .. ?e} else {})"
      unfolding cover0 [symmetric]
      by (auto simp: sideCoverage_def spanInterval_def spanBetween_lo_hi)
    also have "\<dots> = {?c .. ?e}"
      using Fe carvedCursor_ge [of ?c ?xs] by auto
    finally show ?thesis .
  qed
  have inc: "spansIncreasing axis (?N @ ?fin)"
    using carvedSpans_increasing [OF wn, of axis start endp color ?c startId] b
    by (auto simp: spansIncreasing_def sorted_wrt_append spanBetween_lo_hi)
  have apart: "\<forall>w\<in>set (?N @ ?fin). \<forall>a\<in>set openings. spanApartFromOpening axis w a"
  proof (intro ballI)
    fix w a assume w: "w \<in> set (?N @ ?fin)" and a: "a \<in> set openings"
    show "spanApartFromOpening axis w a"
    proof (cases "w \<in> set ?N")
      case True
      then show ?thesis
        using chained_apart [OF ch True] a by simp
    next
      case False
      then have "w = ?last"
        using w by (auto split: if_splits)
      then show ?thesis
        using ins [OF a] by (simp add: spanApartFromOpening_def spanBetween_lo_hi)
    qed
  qed
  from eq len cover inc apart False show ?thesis
    by blast
qed

theorem carve_reconstructs_side_witness:
  "openingsInside (axisCoord AxisX (0, 0, 0)) (axisCoord AxisX (14, 0, 0))
      [mkOpening north 10 4, mkOpening north 2 4] \<and>
   pairwiseApart [mkOpening north 10 4, mkOpening north 2 4] \<and>
   createWallWithOpenings [] 0 (0, 0, 0) (14, 0, 0) AxisX
      [mkOpening north 10 4, mkOpening north 2 4] ''#4a4a7a''
     = [\<lparr> wid = ''wall_0'', wstart = (4, 0, 0), wend = (8, 0, 0), wheight = 4,
          wcolor = ''#4a4a7a'' \<rparr>,
        \<lparr> wid = ''wall_1'', wstart = (12, 0, 0), wend = (14, 0, 0), wheight = 4,
          wcolor = ''#4a4a7a'' \<rparr>] \<and>
   sideCoverage AxisX
      [\<lparr> wid = ''wall_0'', wstart = (4, 0, 0), wend = (8, 0, 0), wheight = 4,
          wcolor = ''#4a4a7a'' \<rparr>,
        \<lparr> wid = ''wall_1'', wstart = (12, 0, 0), wend = (14, 0, 0), wheight = 4,
          wcolor = ''#4a4a7a'' \<rparr>]
      [mkOpening north 10 4, mkOpening north 2 4]
     = {axisCoord AxisX (0, 0, 0) .. axisCoord AxisX (14, 0, 0)}"
proof -
  let ?os = "[mkOpening north 10 4, mkOpening north 2 4]"
  have h1: "openingsInside (axisCoord AxisX (0, 0, 0)) (axisCoord AxisX (14, 0, 0)) ?os"
    by (simp add: openingsInside_def openingLo_def openingHi_def mkOpening_def axisCoord_def vx_def)
  have h2: "pairwiseApart ?os"
    by (simp add: pairwiseApart_def openingsApart_def openingLo_def openingHi_def mkOpening_def)
  have v: "createWallWithOpenings [] 0 (0, 0, 0) (14, 0, 0) AxisX ?os ''#4a4a7a''
     = [\<lparr> wid = ''wall_0'', wstart = (4, 0, 0), wend = (8, 0, 0), wheight = 4,
          wcolor = ''#4a4a7a'' \<rparr>,
        \<lparr> wid = ''wall_1'', wstart = (12, 0, 0), wend = (14, 0, 0), wheight = 4,
          wcolor = ''#4a4a7a'' \<rparr>]"
    by (simp add: createWallWithOpenings_def mkOpening_def mkWall_def vx_def vy_def vz_def
        WALL_HEIGHT_M_def WALL_HEIGHT_def Let_def)
  from carve_reconstructs_side [OF h1 h2, of "[]" 0 "''#4a4a7a''"]
  obtain new where new:
    "createWallWithOpenings [] 0 (0, 0, 0) (14, 0, 0) AxisX ?os ''#4a4a7a'' = [] @ new"
    "sideCoverage AxisX new ?os = {axisCoord AxisX (0, 0, 0) .. axisCoord AxisX (14, 0, 0)}"
    by blast
  from new(1) v have "new = [\<lparr> wid = ''wall_0'', wstart = (4, 0, 0), wend = (8, 0, 0), wheight = 4,
          wcolor = ''#4a4a7a'' \<rparr>,
        \<lparr> wid = ''wall_1'', wstart = (12, 0, 0), wend = (14, 0, 0), wheight = 4,
          wcolor = ''#4a4a7a'' \<rparr>]"
    by simp
  with new(2) h1 h2 v show ?thesis
    by simp
qed

section \<open>Wall carving: the spans are positive and increasing\<close>

text \<open>
  C9, as stated for every list of openings and every side, fails in two
  corners.  An opening of negative width moves the cursor back behind the span
  just emitted.  Such an opening is what \<^verbatim>\<open>findRoomOpenings\<close> gives for a
  corridor whose raw \<^verbatim>\<open>widthCells\<close> is \<open>-1\<close>: the repair keeps any non-zero width
  (\<^verbatim>\<open>corridor.widthCells || 1\<close>).  On the north side of the room \<open>R2 = (0,6,4,3)\<close>,
  world X from 0 to 16, the opening at 8 of width \<open>-4\<close> leaves the spans \<open>[0, 10]\<close>
  and \<open>[6, 16]\<close>, which overlap.  And a side of length zero with no opening is
  emitted whole, as one span of length zero.
\<close>

theorem carve_negative_width_overlap_counterexample:
  "(\<exists>y lvl.
      validateAndFixLayout \<lparr> level = Some (mkLevel
          [mkRoom ''R1'' 0 0 4 3 None, mkRoom ''R2'' 0 6 4 3 None]
          [\<lparr> cid = ''c'', fromRoom = ''R1'', toRoom = ''R2'', segments = None,
             widthCells = Some (- 1), legacyStartX = None, legacyStartY = None,
             legacyEndX = None, legacyEndY = None \<rparr>]
          None) \<rparr> = Inr y \<and>
      level y = Some lvl \<and>
      findRoomOpenings (mkRoom ''R2'' 0 6 4 3 (Some [''mid''])) (corridors lvl)
        = [mkOpening north 8 (- 4)]) \<and>
   createWallWithOpenings [] 0 (0, 0, 24) (16, 0, 24) AxisX [mkOpening north 8 (- 4)] ''#4a4a7a''
     = [\<lparr> wid = ''wall_0'', wstart = (0, 0, 24), wend = (10, 0, 24), wheight = 4,
          wcolor = ''#4a4a7a'' \<rparr>,
        \<lparr> wid = ''wall_1'', wstart = (6, 0, 24), wend = (16, 0, 24), wheight = 4,
          wcolor = ''#4a4a7a'' \<rparr>] \<and>
   \<not> spansIncreasing AxisX
      (createWallWithOpenings [] 0 (0, 0, 24) (16, 0, 24) AxisX [mkOpening north 8 (- 4)] ''#4a4a7a'') \<and>
   createWallWithOpenings [] 0 (0, 0, 0) (0, 0, 0) AxisX [] ''#4a4a7a''
     = [\<lparr> wid = ''wall_0'', wstart = (0, 0, 0), wend = (0, 0, 0), wheight = 4,
          wcolor = ''#4a4a7a'' \<rparr>] \<and>
   \<not> spansPositive AxisX
      (createWallWithOpenings [] 0 (0, 0, 0) (0, 0, 0) AxisX [] ''#4a4a7a'')"
proof -
  have r: "\<exists>y lvl.
      validateAndFixLayout \<lparr> level = Some (mkLevel
          [mkRoom ''R1'' 0 0 4 3 None, mkRoom ''R2'' 0 6 4 3 None]
          [\<lparr> cid = ''c'', fromRoom = ''R1'', toRoom = ''R2'', segments = None,
             widthCells = Some (- 1), legacyStartX = None, legacyStartY = None,
             legacyEndX = None, legacyEndY = None \<rparr>]
          None) \<rparr> = Inr y \<and>
      level y = Some lvl \<and>
      findRoomOpenings (mkRoom ''R2'' 0 6 4 3 (Some [''mid''])) (corridors lvl)
        = [mkOpening north 8 (- 4)]"
    by (simp add: validateAndFixLayout_def mkLevel_def mkRoom_def fixRoom_def Math_round_def
        fixPOIs_def generateDefaultPOIs_def tagsInclude_def hasType_def widthOrOne_def
        findRoomOpenings_def corridorOpenings_def segmentOpenings_def
        buildCorridorBetweenRooms_def routeSegments_def roomBounds_def getOverlap_def
        buildVerticalCorridor_def Math_floor_def mkOpening_def
        cellsToMeters_def gridToWorldX_def gridToWorldZ_def CELL_SIZE_def GRID_CELL_SIZE_def
        Let_def)
  have w: "createWallWithOpenings [] 0 (0, 0, 24) (16, 0, 24) AxisX [mkOpening north 8 (- 4)] ''#4a4a7a''
     = [\<lparr> wid = ''wall_0'', wstart = (0, 0, 24), wend = (10, 0, 24), wheight = 4,
          wcolor = ''#4a4a7a'' \<rparr>,
        \<lparr> wid = ''wall_1'', wstart = (6, 0, 24), wend = (16, 0, 24), wheight = 4,
          wcolor = ''#4a4a7a'' \<rparr>] \<and>
   \<not> spansIncreasing AxisX
      (createWallWithOpenings [] 0 (0, 0, 24) (16, 0, 24) AxisX [mkOpening north 8 (- 4)] ''#4a4a7a'') \<and>
   createWallWithOpenings [] 0 (0, 0, 0) (0, 0, 0) AxisX [] ''#4a4a7a''
     = [\<lparr> wid = ''wall_0'', wstart = (0, 0, 0), wend = (0, 0, 0), wheight = 4,
          wcolor = ''#4a4a7a'' \<rparr>] \<and>
   \<not> spansPositive AxisX
      (createWallWithOpenings [] 0 (0, 0, 0) (0, 0, 0) AxisX [] ''#4a4a7a'')"
    by (simp add: createWallWithOpenings_def mkOpening_def mkWall_def vx_def vy_def vz_def
        WALL_HEIGHT_M_def WALL_HEIGHT_def Let_def spansIncreasing_def spansPositive_def
        spanLo_def spanHi_def axisCoord_def)
  from r w show ?thesis
    by (rule conjI)
qed

text \<open>
  C9, amended.  For every wall side and every list of openings of non-negative
  width, overlapping and unsorted ones included, the spans the carving adds
  appear in increasing order along the wall, each ending where or before the
  next begins (so no two overlap), and every span has strictly positive
  length, provided the side itself has positive length or there is at least
  one opening (with no opening the one span is the whole side).
\<close>

theorem carve_spans_positive_increasing:
  assumes "widthsNonNegative openings"
    and "axisCoord axis start < axisCoord axis endp \<or> openings \<noteq> []"
  shows "\<exists>new. createWallWithOpenings walls startId start endp axis openings color = walls @ new \<and>
           spansPositive axis new \<and> spansIncreasing axis new"
proof (cases "openings = []")
  case True
  then show ?thesis
    using assms(2)
    by (simp add: createWallWithOpenings_eq spansPositive_def spansIncreasing_def mkWall_lo_hi)
next
  case False
  let ?xs = "sort_key oposition openings"
  let ?c = "axisCoord axis start"
  let ?F = "carvedCursor ?xs ?c"
  let ?N = "carvedSpans axis start endp color ?xs ?c startId"
  let ?fin = "if ?F < axisCoord axis endp
              then [spanBetween axis start endp color ?F (axisCoord axis endp)
                      (carvedNext ?xs ?c startId)]
              else []"
  have wn: "widthsNonNegative ?xs"
    using assms(1) by (simp add: widthsNonNegative_sort)
  have b: "\<And>w. w \<in> set ?N \<Longrightarrow> spanLo axis w < spanHi axis w \<and> spanHi axis w \<le> ?F"
    using carvedSpans_bounds [OF wn] by blast
  have pos: "spansPositive axis (?N @ ?fin)"
    using b by (auto simp: spansPositive_def list_all_iff spanBetween_lo_hi)
  have inc: "spansIncreasing axis (?N @ ?fin)"
    using carvedSpans_increasing [OF wn, of axis start endp color ?c startId] b
    by (auto simp: spansIncreasing_def sorted_wrt_append spanBetween_lo_hi)
  have "createWallWithOpenings walls startId start endp axis openings color = walls @ (?N @ ?fin)"
    using False by (simp add: createWallWithOpenings_eq)
  with pos inc show ?thesis
    by blast
qed

theorem carve_spans_positive_increasing_witness:
  "widthsNonNegative [mkOpening north 10 4, mkOpening north 9 4, mkOpening north 2 4] \<and>
   axisCoord AxisX (0, 0, 0) < axisCoord AxisX (16, 0, 0) \<and>
   createWallWithOpenings [] 0 (0, 0, 0) (16, 0, 0) AxisX
      [mkOpening north 10 4, mkOpening north 9 4, mkOpening north 2 4] ''#4a4a7a''
     = [\<lparr> wid = ''wall_0'', wstart = (4, 0, 0), wend = (7, 0, 0), wheight = 4,
          wcolor = ''#4a4a7a'' \<rparr>,
        \<lparr> wid = ''wall_1'', wstart = (12, 0, 0), wend = (16, 0, 0), wheight = 4,
          wcolor = ''#4a4a7a'' \<rparr>] \<and>
   spansPositive AxisX
      [\<lparr> wid = ''wall_0'', wstart = (4, 0, 0), wend = (7, 0, 0), wheight = 4,
          wcolor = ''#4a4a7a'' \<rparr>,
        \<lparr> wid = ''wall_1'', wstart = (12, 0, 0), wend = (16, 0, 0), wheight = 4,
          wcolor = ''#4a4a7a'' \<rparr>] \<and>
   spansIncreasing AxisX
      [\<lparr> wid = ''wall_0'', wstart = (4, 0, 0), wend = (7, 0, 0), wheight = 4,
          wcolor = ''#4a4a7a'' \<rparr>,
        \<lparr> wid = ''wall_1'', wstart = (12, 0, 0), wend = (16, 0, 0), wheight = 4,
          wcolor = ''#4a4a7a'' \<rparr>]"
proof -
  let ?os = "[mkOpening north 10 4, mkOpening north 9 4, mkOpening north 2 4]"
  have h1: "widthsNonNegative ?os"
    by (simp add: widthsNonNegative_def mkOpening_def)
  have h2: "axisCoord AxisX (0, 0, 0) < axisCoord AxisX (16, 0, 0)"
    by (simp add: axisCoord_def vx_def)
  have v: "createWallWithOpenings [] 0 (0, 0, 0) (16, 0, 0) AxisX ?os ''#4a4a7a''
     = [\<lparr> wid = ''wall_0'', wstart = (4, 0, 0), wend = (7, 0, 0), wheight = 4,
          wcolor = ''#4a4a7a'' \<rparr>,
        \<lparr> wid = ''wall_1'', wstart = (12, 0, 0), wend = (16, 0, 0), wheight = 4,
          wcolor = ''#4a4a7a'' \<rparr>]"
    by (simp add: createWallWithOpenings_def mkOpening_def mkWall_def vx_def vy_def vz_def
        WALL_HEIGHT_M_def WALL_HEIGHT_def Let_def)
  from carve_spans_positive_increasing [OF h1 disjI1 [OF h2], of "[]" 0 "''#4a4a7a''"]
  obtain new where new:
    "createWallWithOpenings [] 0 (0, 0, 0) (16, 0, 0) AxisX ?os ''#4a4a7a'' = [] @ new"
    "spansPositive AxisX new" "spansIncreasing AxisX new"
    by blast
  from new(1) v have "new = [\<lparr> wid = ''wall_0'', wstart = (4, 0, 0), wend = (7, 0, 0), wheight = 4,
          wcolor = ''#4a4a7a'' \<rparr>,
        \<lparr> wid = ''wall_1'', wstart = (12, 0, 0), wend = (16, 0, 0), wheight = 4,
          wcolor = ''#4a4a7a'' \<rparr>]"
    by simp
  with new(2,3) h1 h2 v show ?thesis
    by simp
qed

section \<open>POI markers\<close>

lemma capitalize_names:
  "capitalize ''spawn'' = ''Spawn''"
  "capitalize ''goal'' = ''Goal''"
  "capitalize ''treasure'' = ''Treasure''"
  "capitalize ''checkpoint'' = ''Checkpoint''"
  by (simp_all add: capitalize_def toUpperCase_def)

lemma poi_colors:
  "POI_COLORS ''spawn'' = Some ''#00ff00''"
  "POI_COLORS ''goal'' = Some ''#ff0000''"
  "POI_COLORS ''treasure'' = Some ''#ffd700''"
  "POI_COLORS ''checkpoint'' = Some ''#00bfff''"
  by (simp_all add: POI_COLORS_def)

text \<open>
  C10.  A POI whose \<open>roomId\<close> is the id of no room of the level is neither
  dropped nor an error: the marker list has one marker per POI, and the marker
  at the position of that POI sits at the world origin \<open>[0, 0.1, 0]\<close>, with the
  colour of the POI's type and the capitalised type name as its label.
\<close>

theorem poi_unresolved_room_marker_at_origin:
  assumes "i < length ps" and "roomId (ps ! i) \<notin> set (map rid rs)"
  shows "length (buildGridPOIs ps rs) = length ps \<and>
         buildGridPOIs ps rs ! i =
           \<lparr> gid = pid (ps ! i), gtype = ptype (ps ! i), gposition = (0, 1 / 10, 0),
             gcolor = (case ptype (ps ! i) of
                         spawn \<Rightarrow> ''#00ff00'' | goal \<Rightarrow> ''#ff0000''
                       | treasure \<Rightarrow> ''#ffd700'' | checkpoint \<Rightarrow> ''#00bfff''),
             glabel = (case ptype (ps ! i) of
                         spawn \<Rightarrow> ''Spawn'' | goal \<Rightarrow> ''Goal''
                       | treasure \<Rightarrow> ''Treasure'' | checkpoint \<Rightarrow> ''Checkpoint''),
             groomId = roomId (ps ! i) \<rparr>"
proof -
  have none: "find (\<lambda>r. rid r = roomId (ps ! i)) rs = None"
    using assms(2) by (force simp: find_None_iff)
  have "buildGridPOIs ps rs ! i = buildGridPOI rs (ps ! i)"
    using assms(1) by (simp add: buildGridPOIs_def)
  also have "\<dots> = \<lparr> gid = pid (ps ! i), gtype = ptype (ps ! i), gposition = (0, 1 / 10, 0),
             gcolor = (case ptype (ps ! i) of
                         spawn \<Rightarrow> ''#00ff00'' | goal \<Rightarrow> ''#ff0000''
                       | treasure \<Rightarrow> ''#ffd700'' | checkpoint \<Rightarrow> ''#00bfff''),
             glabel = (case ptype (ps ! i) of
                         spawn \<Rightarrow> ''Spawn'' | goal \<Rightarrow> ''Goal''
                       | treasure \<Rightarrow> ''Treasure'' | checkpoint \<Rightarrow> ''Checkpoint''),
             groomId = roomId (ps ! i) \<rparr>"
    by (cases "ptype (ps ! i)") (simp_all add: buildGridPOI_def none capitalize_names poi_colors)
  finally show ?thesis
    by (simp add: buildGridPOIs_def)
qed

theorem poi_unresolved_room_marker_at_origin_witness:
  "0 < length [mkPOI ''p1'' treasure ''nowhere''] \<and>
   roomId ([mkPOI ''p1'' treasure ''nowhere''] ! 0) \<notin> set (map rid [mkRoom ''a'' 0 0 4 3 None]) \<and>
   buildGridPOIs [mkPOI ''p1'' treasure ''nowhere''] [mkRoom ''a'' 0 0 4 3 None] =
     [\<lparr> gid = ''p1'', gtype = treasure, gposition = (0, 1 / 10, 0), gcolor = ''#ffd700'',
        glabel = ''Treasure'', groomId = ''nowhere'' \<rparr>]"
proof -
  let ?ps = "[mkPOI ''p1'' treasure ''nowhere'']" and ?rs = "[mkRoom ''a'' 0 0 4 3 None]"
  have h1: "0 < length ?ps" by simp
  have h2: "roomId (?ps ! 0) \<notin> set (map rid ?rs)"
    by (simp add: mkPOI_def mkRoom_def)
  from poi_unresolved_room_marker_at_origin [OF h1 h2]
  have "length (buildGridPOIs ?ps ?rs) = 1"
    and "buildGridPOIs ?ps ?rs ! 0 =
      \<lparr> gid = ''p1'', gtype = treasure, gposition = (0, 1 / 10, 0), gcolor = ''#ffd700'',
        glabel = ''Treasure'', groomId = ''nowhere'' \<rparr>"
    by (simp_all add: mkPOI_def)
  then have "buildGridPOIs ?ps ?rs =
     [\<lparr> gid = ''p1'', gtype = treasure, gposition = (0, 1 / 10, 0), gcolor = ''#ffd700'',
        glabel = ''Treasure'', groomId = ''nowhere'' \<rparr>]"
    by (cases "buildGridPOIs ?ps ?rs") auto
  with h1 h2 show ?thesis
    by blast
qed

section \<open>Object placement\<close>

lemma anchorOf_unresolved:
  assumes "targetUnresolved rs context asset"
  shows "anchorOf rs spawnPOI goalPOI roomsMap context cnt asset
           = ((0, 0, 0), ASSET_SCALES_prop, None, cnt)"
  using assms
  by (auto simp: targetUnresolved_def anchorOf_def Let_def split: option.splits)

lemma placeAssets_ids:
  "map reference_id (placeAssets rs sp gp m context assets (objs, cnt))
     = map reference_id objs @ map assetId (filter isReady assets)"
proof (induction assets arbitrary: objs cnt)
  case Nil
  then show ?case by simp
next
  case (Cons a assets)
  show ?case
  proof (cases "isReady a")
    case False
    then show ?thesis
      using Cons.IH by (auto simp: isReady_def)
  next
    case True
    obtain p s i c where an: "anchorOf rs sp gp m context cnt a = (p, s, i, c)"
      by (cases "anchorOf rs sp gp m context cnt a") auto
    show ?thesis
      using True an by (simp add: isReady_def Cons.IH)
  qed
qed

lemma placeAssets_keeps:
  "set objs \<subseteq> set (placeAssets rs sp gp m context assets (objs, cnt))"
proof (induction assets arbitrary: objs cnt)
  case Nil
  then show ?case by simp
next
  case (Cons a assets)
  show ?case
  proof (cases "isReady a")
    case False
    then show ?thesis
      using Cons.IH [of objs cnt] by (auto simp: isReady_def)
  next
    case True
    obtain p s i c where an: "anchorOf rs sp gp m context cnt a = (p, s, i, c)"
      by (cases "anchorOf rs sp gp m context cnt a") auto
    let ?o = "\<lparr> objId = ''obj_'' @ assetId a, reference_id = assetId a,
                 objName = assetName a, model_path = path a,
                 objPosition = p, rotation = (0, 0, 0), objScale = s, poi_id = i \<rparr>"
    have "set (objs @ [?o]) \<subseteq> set (placeAssets rs sp gp m context assets (objs @ [?o], c))"
      by (rule Cons.IH)
    then show ?thesis
      using True an by (simp add: isReady_def)
  qed
qed

lemma placeAssets_unresolved:
  assumes "asset \<in> set assets" and "isReady asset" and "targetUnresolved rs context asset"
  shows "unplacedObject asset \<in> set (placeAssets rs sp gp m context assets (objs, cnt))"
  using assms(1)
proof (induction assets arbitrary: objs cnt)
  case Nil
  then show ?case by simp
next
  case (Cons a assets)
  show ?case
  proof (cases "a = asset")
    case True
    let ?o = "unplacedObject asset"
    have "set (objs @ [?o]) \<subseteq> set (placeAssets rs sp gp m context assets (objs @ [?o], cnt))"
      by (rule placeAssets_keeps)
    then show ?thesis
      using True assms(2) anchorOf_unresolved [OF assms(3), of sp gp m cnt]
      by (simp add: isReady_def unplacedObject_def ASSET_SCALES_prop_def)
  next
    case False
    then have mem: "asset \<in> set assets"
      using Cons.prems by simp
    show ?thesis
    proof (cases "isReady a")
      case False
      then show ?thesis
        using Cons.IH [OF mem, of objs cnt] by (auto simp: isReady_def)
    next
      case True
      obtain p s i c where an: "anchorOf rs sp gp m context cnt a = (p, s, i, c)"
        by (cases "anchorOf rs sp gp m context cnt a") auto
      show ?thesis
        using True an Cons.IH [OF mem] by (simp add: isReady_def)
    qed
  qed
qed

text \<open>
  C7, as the specification states it, fails: the push onto the object list
  stands after the branches, outside them, so an asset whose target resolves to
  no room is still placed.  A ready prop with the placement tag \<open>secret\<close>, in a
  level whose rooms are tagged \<open>entry\<close> and \<open>goal\<close>, is returned at the origin.
\<close>

theorem unplaceable_prop_is_not_skipped_counterexample:
  "positionGridObjects
     (mkLevel [mkRoom ''a'' 0 0 4 3 (Some [''entry'']), mkRoom ''b'' 0 6 4 3 (Some [''goal''])] []
        (Some [mkPOI ''poi_spawn'' spawn ''a'', mkPOI ''poi_goal'' goal ''b'']))
     [mkAsset ''chest'' AssetProp]
     (mkContext [] [mkProp ''chest'' [''secret'']])
   = Inr [\<lparr> objId = ''obj_chest'', reference_id = ''chest'', objName = ''chest'',
            model_path = ''/assets/chest.glb'', objPosition = (0, 0, 0), rotation = (0, 0, 0),
            objScale = (2, 2, 2), poi_id = None \<rparr>] \<and>
   find (tagsInclude (targetTagOf (mkProp ''chest'' [''secret''])))
     [mkRoom ''a'' 0 0 4 3 (Some [''entry'']), mkRoom ''b'' 0 6 4 3 (Some [''goal''])] = None"
  by (simp add: positionGridObjects_def mkLevel_def mkRoom_def mkPOI_def mkAsset_def
      mkContext_def mkProp_def anchorOf_def targetTagOf_def tagsInclude_def roomsById_def
      registerRooms_def ASSET_SCALES_prop_def Let_def)

text \<open>
  C7, amended.  For every ready asset whose target resolves to no room of the
  level (a prop whose first placement tag no room carries, or a secondary
  character when no room is tagged \<open>mid\<close>), the object placer raises no error and
  does not skip the asset: the returned list holds its object, left at the
  origin \<open>[0, 0, 0]\<close> with the default scale \<open>[2, 2, 2]\<close> and no POI; the list has
  one object for every ready asset, in order.
\<close>

theorem unresolved_target_object_placed_at_origin:
  assumes "pois lvl = Some ps" and "rooms lvl = Some rs"
    and "asset \<in> set assets" and "isReady asset"
    and "targetUnresolved rs context asset"
  shows "\<exists>objs. positionGridObjects lvl assets context = Inr objs \<and>
           unplacedObject asset \<in> set objs \<and>
           map reference_id objs = map assetId (filter isReady assets)"
proof -
  let ?objs = "placeAssets rs (find (\<lambda>p. ptype p = spawn) ps) (find (\<lambda>p. ptype p = goal) ps)
      (roomsById rs) context assets ([], Map.empty)"
  have "positionGridObjects lvl assets context = Inr ?objs"
    using assms(1,2) by (simp add: positionGridObjects_def Let_def)
  moreover have "unplacedObject asset \<in> set ?objs"
    by (rule placeAssets_unresolved [OF assms(3) assms(4) assms(5)])
  moreover have "map reference_id ?objs = map assetId (filter isReady assets)"
    by (simp add: placeAssets_ids)
  ultimately show ?thesis
    by blast
qed

theorem unresolved_target_object_placed_at_origin_witness:
  "isReady (mkAsset ''villager'' AssetCharacter) \<and>
   targetUnresolved
     [mkRoom ''a'' 0 0 4 3 (Some [''entry'']), mkRoom ''b'' 0 6 4 3 (Some [''goal''])]
     (mkContext [mkCharacter ''hero'' protagonist, mkCharacter ''villager'' npc] [])
     (mkAsset ''villager'' AssetCharacter) \<and>
   positionGridObjects
     (mkLevel [mkRoom ''a'' 0 0 4 3 (Some [''entry'']), mkRoom ''b'' 0 6 4 3 (Some [''goal''])] []
        (Some [mkPOI ''poi_spawn'' spawn ''a'', mkPOI ''poi_goal'' goal ''b'']))
     [mkAsset ''hero'' AssetCharacter, mkAsset ''villager'' AssetCharacter]
     (mkContext [mkCharacter ''hero'' protagonist, mkCharacter ''villager'' npc] [])
   = Inr [\<lparr> objId = ''obj_hero'', reference_id = ''hero'', objName = ''hero'',
            model_path = ''/assets/hero.glb'', objPosition = (8, 0, 6), rotation = (0, 0, 0),
            objScale = (3, 3, 3), poi_id = Some ''poi_spawn'' \<rparr>,
          unplacedObject (mkAsset ''villager'' AssetCharacter)] \<and>
   unplacedObject (mkAsset ''villager'' AssetCharacter)
     = \<lparr> objId = ''obj_villager'', reference_id = ''villager'', objName = ''villager'',
         model_path = ''/assets/villager.glb'', objPosition = (0, 0, 0), rotation = (0, 0, 0),
         objScale = (2, 2, 2), poi_id = None \<rparr>"
proof -
  let ?rs = "[mkRoom ''a'' 0 0 4 3 (Some [''entry'']), mkRoom ''b'' 0 6 4 3 (Some [''goal''])]"
  let ?ps = "[mkPOI ''poi_spawn'' spawn ''a'', mkPOI ''poi_goal'' goal ''b'']"
  let ?lvl = "mkLevel ?rs [] (Some ?ps)"
  let ?ctx = "mkContext [mkCharacter ''hero'' protagonist, mkCharacter ''villager'' npc] []"
  let ?a = "mkAsset ''villager'' AssetCharacter"
  let ?assets = "[mkAsset ''hero'' AssetCharacter, ?a]"
  have h1: "pois ?lvl = Some ?ps" and h2: "rooms ?lvl = Some ?rs"
    by (simp_all add: mkLevel_def)
  have h3: "?a \<in> set ?assets" by simp
  have h4: "isReady ?a"
    by (simp add: isReady_def mkAsset_def)
  have h5: "targetUnresolved ?rs ?ctx ?a"
    by (simp add: targetUnresolved_def mkContext_def mkCharacter_def mkAsset_def mkRoom_def
        tagsInclude_def)
  from unresolved_target_object_placed_at_origin [OF h1 h2 h3 h4 h5]
  obtain objs where objs: "positionGridObjects ?lvl ?assets ?ctx = Inr objs"
      "unplacedObject ?a \<in> set objs"
    by blast
  have v: "positionGridObjects ?lvl ?assets ?ctx
     = Inr [\<lparr> objId = ''obj_hero'', reference_id = ''hero'', objName = ''hero'',
            model_path = ''/assets/hero.glb'', objPosition = (8, 0, 6), rotation = (0, 0, 0),
            objScale = (3, 3, 3), poi_id = Some ''poi_spawn'' \<rparr>,
          unplacedObject ?a]"
    by (simp add: positionGridObjects_def mkLevel_def mkRoom_def mkPOI_def mkAsset_def
        mkContext_def mkCharacter_def anchorOf_def tagsInclude_def roomsById_def
        registerRooms_def ASSET_SCALES_prop_def ASSET_SCALES_protagonist_def unplacedObject_def
        gridToWorldX_def gridToWorldZ_def CELL_SIZE_def GRID_CELL_SIZE_def Let_def)
  have u: "unplacedObject ?a
     = \<lparr> objId = ''obj_villager'', reference_id = ''villager'', objName = ''villager'',
         model_path = ''/assets/villager.glb'', objPosition = (0, 0, 0), rotation = (0, 0, 0),
         objScale = (2, 2, 2), poi_id = None \<rparr>"
    by (simp add: unplacedObject_def mkAsset_def)
  from objs h4 h5 v u show ?thesis
    by blast
qed

section \<open>Camera framing\<close>

lemma levelBounds_fold:
  "levelBounds rs (Some a, Some b, Some c, Some d) =
     (Some (fold min (map (\<lambda>r. gridToWorldX (gridX r)) rs) a),
      Some (fold max (map (\<lambda>r. gridToWorldX (gridX r + width r)) rs) b),
      Some (fold min (map (\<lambda>r. gridToWorldZ (gridY r)) rs) c),
      Some (fold max (map (\<lambda>r. gridToWorldZ (gridY r + height r)) rs) d))"
  by (induction rs arbitrary: a b c d)
    (simp_all add: Let_def minInf_def maxInf_def min.commute max.commute)

lemma levelBounds_box:
  assumes "rs \<noteq> []"
  shows "levelBounds rs (None, None, None, None) =
     (Some (boxMinX rs), Some (boxMaxX rs), Some (boxMinZ rs), Some (boxMaxZ rs))"
proof -
  from assms obtain r rest where rs: "rs = r # rest"
    by (cases rs) auto
  show ?thesis
    unfolding rs boxMinX_def boxMaxX_def boxMinZ_def boxMaxZ_def
    by (simp add: Let_def minInf_def maxInf_def levelBounds_fold
        Min.set_eq_fold Max.set_eq_fold del: set_simps)
qed

lemma box_single:
  "boxMinX [r] = gridToWorldX (gridX r)" "boxMaxX [r] = gridToWorldX (gridX r + width r)"
  "boxMinZ [r] = gridToWorldZ (gridY r)" "boxMaxZ [r] = gridToWorldZ (gridY r + height r)"
  by (simp_all add: boxMinX_def boxMaxX_def boxMinZ_def boxMaxZ_def)

text \<open>
  C8, as the specification states it, fails for the camera distance: it is
  \<open>max 40 boxDepth\<close> and does not read the width of the box.  Two levels of one
  room each, 100 by 2 cells and 100 by 100 cells, have the same
  \<open>max boxWidth boxDepth = 400\<close>, yet the camera distance is 40 for the first
  (\<open>max_distance = 80\<close>, camera 20 behind the box) and 400 for the second
  (\<open>max_distance = 800\<close>, camera 200 behind the box).
\<close>

theorem camera_distance_ignores_width_counterexample:
  "max (boxWidth [mkRoom ''a'' 0 0 100 2 None]) (boxDepth [mkRoom ''a'' 0 0 100 2 None]) = 400 \<and>
   max (boxWidth [mkRoom ''a'' 0 0 100 100 None]) (boxDepth [mkRoom ''a'' 0 0 100 100 None]) = 400 \<and>
   configureGridCamera (mkLevel [mkRoom ''a'' 0 0 100 2 None] [] None) =
     Inr \<lparr> default_position = (200, 320, 28), default_look_at = (200, 0, 4), default_fov = 60,
           orbit_target = (200, 0, 4), min_distance = 10, max_distance = 80 \<rparr> \<and>
   configureGridCamera (mkLevel [mkRoom ''a'' 0 0 100 100 None] [] None) =
     Inr \<lparr> default_position = (200, 320, 600), default_look_at = (200, 0, 200), default_fov = 60,
           orbit_target = (200, 0, 200), min_distance = 10, max_distance = 800 \<rparr>"
  by (simp add: configureGridCamera_def mkLevel_def mkRoom_def Let_def minInf_def maxInf_def
      cameraHeightFor_def cameraDistanceFor_def boxWidth_def boxDepth_def box_single
      gridToWorldX_def gridToWorldZ_def CELL_SIZE_def GRID_CELL_SIZE_def)

text \<open>
  C8, amended.  For every level with at least one room, the camera looks at,
  and orbits around, the centre of the axis-aligned bounding box over all room
  world-rectangles; the camera height is \<open>max 30 (0.8 * max boxWidth boxDepth)\<close>;
  the camera distance is \<open>max 40 boxDepth\<close> (the depth of the box alone), the
  camera standing half of it behind the far edge of the box and the largest
  orbit distance being twice it.
\<close>

theorem camera_frames_bounding_box:
  assumes "rooms lvl = Some rs" and "rs \<noteq> []"
  shows "configureGridCamera lvl =
     Inr \<lparr> default_position =
             ((boxMinX rs + boxMaxX rs) / 2,
              max 30 (max (boxWidth rs) (boxDepth rs) * (4 / 5)),
              boxMaxZ rs + max 40 (boxDepth rs) * (1 / 2)),
           default_look_at = boxCenter rs,
           default_fov = 60,
           orbit_target = boxCenter rs,
           min_distance = 10,
           max_distance = max 40 (boxDepth rs) * 2 \<rparr>"
  using assms(1)
  by (simp add: configureGridCamera_def levelBounds_box [OF assms(2)] Let_def
      cameraHeightFor_def cameraDistanceFor_def boxWidth_def boxDepth_def boxCenter_def)

theorem camera_frames_bounding_box_witness:
  "rooms (mkLevel [mkRoom ''a'' 0 0 4 3 None, mkRoom ''b'' 8 5 4 3 None] [] None)
     = Some [mkRoom ''a'' 0 0 4 3 None, mkRoom ''b'' 8 5 4 3 None] \<and>
   [mkRoom ''a'' 0 0 4 3 None, mkRoom ''b'' 8 5 4 3 None] \<noteq> [] \<and>
   configureGridCamera (mkLevel [mkRoom ''a'' 0 0 4 3 None, mkRoom ''b'' 8 5 4 3 None] [] None) =
     Inr \<lparr> default_position = (24, 192 / 5, 52), default_look_at = (24, 0, 16), default_fov = 60,
           orbit_target = (24, 0, 16), min_distance = 10, max_distance = 80 \<rparr>"
proof -
  let ?rs = "[mkRoom ''a'' 0 0 4 3 None, mkRoom ''b'' 8 5 4 3 None]"
  let ?lvl = "mkLevel ?rs [] None"
  have h1: "rooms ?lvl = Some ?rs" by (simp add: mkLevel_def)
  have h2: "?rs \<noteq> []" by simp
  have b: "boxMinX ?rs = 0" "boxMaxX ?rs = 48" "boxMinZ ?rs = 0" "boxMaxZ ?rs = 32"
    by (simp_all add: boxMinX_def boxMaxX_def boxMinZ_def boxMaxZ_def mkRoom_def
        gridToWorldX_def gridToWorldZ_def CELL_SIZE_def GRID_CELL_SIZE_def)
  from camera_frames_bounding_box [OF h1 h2] h1 h2 show ?thesis
    by (simp add: b boxWidth_def boxDepth_def boxCenter_def)
qed

end
